theory Spec2Isabelle
  imports Complex_Main
begin

section \<open>VillageRide: the map script (static/js/map.js)\<close>

text \<open>
  The script runs once when the page has loaded. It paints the ride offers and the ride
  requests that the page embeds on a Leaflet map, fits the viewport to them, and then
  reacts to three kinds of events: a press on one of the two mode controls, a click on
  the map, and the settling of a reverse-geocoding request that an earlier click issued.

  Numbers are JavaScript doubles in the script. The script performs no arithmetic on
  them: it compares them against \<open>null\<close>, hands them to Leaflet (which takes minima
  and maxima), and prints them with \<open>toFixed(5)\<close>. Each finite double is a rational
  number, so numbers are modelled by \<^typ>\<open>rat\<close>. \<open>NaN\<close>, which JSON cannot carry and a
  map click cannot produce, has no place in the records of the feed or in a response; what
  the null guards do with it is modelled apart, on plain objects.
\<close>

subsection \<open>JavaScript values\<close>

datatype jsval =
    JUndefined
  | JNull
  | JBool bool
  | JNum rat
  | JStr string
  | JArr "jsval list"
  | JObj "(string \<times> jsval) list"

datatype error =
    TypeError
  | HttpError nat
  | NetworkError
  | SyntaxError
  | InvalidLatLng

text \<open>\<open>ToBoolean\<close>: what \<open>||\<close>, \<open>&&\<close> and \<open>if\<close> look at.\<close>

fun truthy :: "jsval \<Rightarrow> bool" where
  "truthy JUndefined = False"
| "truthy JNull = False"
| "truthy (JBool b) = b"
| "truthy (JNum n) = (n \<noteq> 0)"
| "truthy (JStr s) = (s \<noteq> [])"
| "truthy (JArr xs) = True"
| "truthy (JObj kvs) = True"

text \<open>
  Reading a property \<open>v.k\<close>, for the data properties of a parsed JSON value. On
  \<open>undefined\<close> and \<open>null\<close> the read throws a TypeError; an object yields the stored
  value or \<open>undefined\<close>; the other values have none of the properties this script reads
  (\<open>address\<close>, \<open>village\<close>, \<open>town\<close>, \<open>city\<close>, \<open>display_name\<close>).
\<close>

fun getprop :: "jsval \<Rightarrow> string \<Rightarrow> error + jsval" where
  "getprop JUndefined k = Inl TypeError"
| "getprop JNull k = Inl TypeError"
| "getprop (JObj kvs) k = (case map_of kvs k of Some v \<Rightarrow> Inr v | None \<Rightarrow> Inr JUndefined)"
| "getprop v k = Inr JUndefined"

subsection \<open>Records of the data feed\<close>

text \<open>
  A coordinate property of a ride or request record: missing (\<open>undefined\<close>), \<open>null\<close>,
  or a number.
\<close>

datatype numfield = Undefined | Null | Num rat

text \<open>The loose comparison \<open>x == null\<close>: true for \<open>null\<close> and \<open>undefined\<close> only.\<close>

fun eq_null :: "numfield \<Rightarrow> bool" where
  "eq_null Undefined = True"
| "eq_null Null = True"
| "eq_null (Num n) = False"

text \<open>
  Both feeds are arrays of plain objects, and the script reads the same property names
  from either kind. Only the coordinate properties decide what is drawn and where; the
  texts that go into the popups (driver, passenger, date, phone, ...) and the line colour
  picked from \<open>ride_type\<close> are presentation and are left out of the model. A request
  record has no destination coordinates in the feed; the script never reads them.
\<close>

record listing =
  from_lat :: numfield
  from_lng :: numfield
  to_lat :: numfield
  to_lng :: numfield

subsection \<open>The part of Leaflet that the script uses\<close>

datatype latlng = LatLng (lat: rat) (lng: rat)

text \<open>
  \<open>L.latLng(a, b)\<close> on two numbers is the point with these coordinates. The script
  calls it only behind its null guards; for any other arguments the model raises, and
  \<open>startup\<close> is shown below never to raise.
\<close>

fun latLng :: "numfield \<Rightarrow> numfield \<Rightarrow> error + latlng" where
  "latLng (Num a) (Num b) = Inr (LatLng a b)"
| "latLng a b = Inl InvalidLatLng"

text \<open>
  \<open>L.latLngBounds([])\<close> starts without corners and is then not valid. \<open>extend\<close> (here \<open>extend_bounds\<close>) sets
  both corners to the first point and afterwards takes minima for the south-west corner
  and maxima for the north-east one. \<open>contains\<close> compares against both corners.
\<close>

type_synonym latLngBounds = "(latlng \<times> latlng) option"

fun extend_bounds :: "latlng \<Rightarrow> latLngBounds \<Rightarrow> latLngBounds" where
  "extend_bounds p None = Some (p, p)"
| "extend_bounds p (Some (sw, ne)) =
     Some (LatLng (min (lat p) (lat sw)) (min (lng p) (lng sw)),
           LatLng (max (lat p) (lat ne)) (max (lng p) (lng ne)))"

fun isValid :: "latLngBounds \<Rightarrow> bool" where
  "isValid None = False"
| "isValid (Some b) = True"

fun contains :: "latlng \<times> latlng \<Rightarrow> latlng \<Rightarrow> bool" where
  "contains (sw, ne) p =
     (lat sw \<le> lat p \<and> lat p \<le> lat ne \<and> lng sw \<le> lng p \<and> lng p \<le> lng ne)"

datatype polyline = Polyline (line_from: latlng) (line_to: latlng)

datatype circleMarker = CircleMarker (centre: latlng)

text \<open>
  The viewport: either the view set by \<open>setView(center, zoom)\<close> or the one requested by
  \<open>fitBounds(bounds, {padding: [h, v]})\<close>. Which centre and zoom Leaflet derives from
  the bounds depends on the pixel size of the container and is not modelled.
\<close>

datatype viewport =
    SetView latlng nat
  | FitBounds "latlng \<times> latlng" nat nat

record map_state =
  ridesLayer :: "polyline list"
  requestsLayer :: "circleMarker list"
  bounds :: latLngBounds
  view :: viewport

subsection \<open>Painting the feeds (lines 13 to 112)\<close>

definition DEFAULT_CENTER :: latlng where
  "DEFAULT_CENTER = LatLng 42.78 23.78"

definition DEFAULT_ZOOM :: nat where
  "DEFAULT_ZOOM = 12"

text \<open>\<open>Array.prototype.forEach\<close> with a callback that may throw: the first throw ends it.\<close>

fun forEach :: "('a \<Rightarrow> 's \<Rightarrow> error + 's) \<Rightarrow> 'a list \<Rightarrow> 's \<Rightarrow> error + 's" where
  "forEach f [] s = Inr s"
| "forEach f (x # xs) s = (case f x s of Inl e \<Rightarrow> Inl e | Inr s' \<Rightarrow> forEach f xs s')"

text \<open>The callback of \<open>rides.forEach\<close>.\<close>

definition render_ride :: "listing \<Rightarrow> map_state \<Rightarrow> error + map_state" where
  "render_ride r s =
     (if eq_null (from_lat r) \<or> eq_null (from_lng r) \<or> eq_null (to_lat r) \<or> eq_null (to_lng r)
      then Inr s
      else case latLng (from_lat r) (from_lng r) of
             Inl e \<Rightarrow> Inl e
           | Inr from \<Rightarrow>
               (case latLng (to_lat r) (to_lng r) of
                  Inl e \<Rightarrow> Inl e
                | Inr to \<Rightarrow>
                    Inr (s\<lparr>ridesLayer := ridesLayer s @ [Polyline from to],
                           bounds := extend_bounds to (extend_bounds from (bounds s))\<rparr>)))"

text \<open>The callback of \<open>requests.forEach\<close>.\<close>

definition render_request :: "listing \<Rightarrow> map_state \<Rightarrow> error + map_state" where
  "render_request req s =
     (if eq_null (from_lat req) \<or> eq_null (from_lng req)
      then Inr s
      else case latLng (from_lat req) (from_lng req) of
             Inl e \<Rightarrow> Inl e
           | Inr from \<Rightarrow>
               Inr (s\<lparr>requestsLayer := requestsLayer s @ [CircleMarker from],
                      bounds := extend_bounds from (bounds s)\<rparr>))"

text \<open>
  \<open>Array.isArray(window.ridesData) ? window.ridesData : []\<close>: the page data is
  \<open>Some\<close> array or, when the page did not set it to an array, \<open>None\<close>.
\<close>

definition array_or_empty :: "'a list option \<Rightarrow> 'a list" where
  "array_or_empty d = (case d of Some xs \<Rightarrow> xs | None \<Rightarrow> [])"

definition fresh_map :: map_state where
  "fresh_map = \<lparr>ridesLayer = [], requestsLayer = [], bounds = None,
                 view = SetView DEFAULT_CENTER DEFAULT_ZOOM\<rparr>"

definition fit_if_valid :: "map_state \<Rightarrow> map_state" where
  "fit_if_valid s =
     (if isValid (bounds s)
      then (case bounds s of Some b \<Rightarrow> s\<lparr>view := FitBounds b 24 24\<rparr> | None \<Rightarrow> s)
      else s)"

text \<open>
  The start of the script, for a page that has the map container and Leaflet: the map
  is created at the default view, both feeds are painted, and the viewport is fitted
  when the bounds are valid. \<open>Inl\<close> is an exception that reaches the outer \<open>try\<close>.
\<close>

definition startup :: "listing list option \<Rightarrow> listing list option \<Rightarrow> error + map_state" where
  "startup ridesData requestsData =
     (let rides = array_or_empty ridesData;
          requests = array_or_empty requestsData
      in case forEach render_ride rides fresh_map of
           Inl e \<Rightarrow> Inl e
         | Inr s1 \<Rightarrow>
             (case forEach render_request requests s1 of
                Inl e \<Rightarrow> Inl e
              | Inr s2 \<Rightarrow> Inr (fit_if_valid s2)))"

subsection \<open>The two callbacks on plain objects\<close>

text \<open>
  The feed that the specification describes has a number, \<open>null\<close> or nothing in a
  coordinate property, and \<open>listing\<close> says so in its type. JavaScript itself is wider:
  a record is an object that yields a value, or \<open>undefined\<close>, for every property
  name, and its numbers include \<open>NaN\<close>, which is falsy and is not \<open>null\<close>. To say
  what the two null guards do with such a value, the two callbacks are modelled a second
  time, over these objects. On the records of the feed both models do the same
  (\<open>object_callbacks_agree\<close> below).
\<close>

datatype property = PUndefined | PNull | PNum rat | PNaN

type_synonym js_object = "string \<Rightarrow> property"

fun eq_null_property :: "property \<Rightarrow> bool" where
  "eq_null_property PUndefined = True"
| "eq_null_property PNull = True"
| "eq_null_property (PNum n) = False"
| "eq_null_property PNaN = False"

text \<open>
  \<open>L.latLng(a, b)\<close> on two finite numbers is the point; when one of them is \<open>NaN\<close>
  Leaflet throws (\<open>Invalid LatLng object\<close>). The script calls it only behind its null
  guards, so here too the remaining cases do not occur.
\<close>

fun latLng_property :: "property \<Rightarrow> property \<Rightarrow> error + latlng" where
  "latLng_property (PNum a) (PNum b) = Inr (LatLng a b)"
| "latLng_property a b = Inl InvalidLatLng"

definition render_ride_object :: "js_object \<Rightarrow> map_state \<Rightarrow> error + map_state" where
  "render_ride_object r s =
     (if eq_null_property (r ''from_lat'') \<or> eq_null_property (r ''from_lng'') \<or>
         eq_null_property (r ''to_lat'') \<or> eq_null_property (r ''to_lng'')
      then Inr s
      else case latLng_property (r ''from_lat'') (r ''from_lng'') of
             Inl e \<Rightarrow> Inl e
           | Inr from \<Rightarrow>
               (case latLng_property (r ''to_lat'') (r ''to_lng'') of
                  Inl e \<Rightarrow> Inl e
                | Inr to \<Rightarrow>
                    Inr (s\<lparr>ridesLayer := ridesLayer s @ [Polyline from to],
                           bounds := extend_bounds to (extend_bounds from (bounds s))\<rparr>)))"

definition render_request_object :: "js_object \<Rightarrow> map_state \<Rightarrow> error + map_state" where
  "render_request_object req s =
     (if eq_null_property (req ''from_lat'') \<or> eq_null_property (req ''from_lng'')
      then Inr s
      else case latLng_property (req ''from_lat'') (req ''from_lng'') of
             Inl e \<Rightarrow> Inl e
           | Inr from \<Rightarrow>
               Inr (s\<lparr>requestsLayer := requestsLayer s @ [CircleMarker from],
                      bounds := extend_bounds from (bounds s)\<rparr>))"

text \<open>An object with the four coordinate properties and no other.\<close>

definition coordinates_object :: "property \<Rightarrow> property \<Rightarrow> property \<Rightarrow> property \<Rightarrow> js_object" where
  "coordinates_object a b c d =
     (\<lambda>k. if k = ''from_lat'' then a
          else if k = ''from_lng'' then b
          else if k = ''to_lat'' then c
          else if k = ''to_lng'' then d
          else PUndefined)"

text \<open>A record of the feed, seen as an object.\<close>

fun widen :: "numfield \<Rightarrow> property" where
  "widen Undefined = PUndefined"
| "widen Null = PNull"
| "widen (Num n) = PNum n"

definition object_of :: "listing \<Rightarrow> js_object" where
  "object_of r =
     coordinates_object (widen (from_lat r)) (widen (from_lng r)) (widen (to_lat r)) (widen (to_lng r))"

subsection \<open>Printing a number with \<open>toFixed\<close>\<close>

definition digit :: "nat \<Rightarrow> char" where
  "digit d = ''0123456789'' ! d"

fun digits :: "nat \<Rightarrow> string" where
  "digits n = (if n < 10 then [digit n] else digits (n div 10) @ [digit (n mod 10)])"

declare digits.simps [simp del]

text \<open>
  \<open>Number.prototype.toFixed(f)\<close> as ECMAScript defines it for a finite number below
  \<open>10\<^sup>2\<^sup>1\<close> in magnitude (a coordinate is): a negative number gives a minus sign and
  is negated; \<open>n\<close> is the integer nearest to \<open>x * 10^f\<close>, the larger one on a tie; its
  decimal digits are padded with zeros on the left to \<open>f + 1\<close> digits, and the point
  goes before the last \<open>f\<close> of them.
\<close>

definition toFixed :: "nat \<Rightarrow> rat \<Rightarrow> string" where
  "toFixed f x =
     (let sign = (if x < 0 then ''-'' else []);
          a = (if x < 0 then - x else x);
          n = nat \<lfloor>a * 10 ^ f + 1 / 2\<rfloor>;
          m = digits n;
          m = (if length m \<le> f then replicate (f + 1 - length m) (CHR ''0'') @ m else m);
          k = length m
      in if f = 0 then sign @ m
         else sign @ take (k - f) m @ ''.'' @ drop (k - f) m)"

text \<open>The template literal \<open>`${lat.toFixed(5)}, ${lng.toFixed(5)}`\<close> of lines 209 and 218.\<close>

definition coords_label :: "rat \<Rightarrow> rat \<Rightarrow> string" where
  "coords_label lat' lng' = toFixed 5 lat' @ '', '' @ toFixed 5 lng'"

subsection \<open>The page while the user works with the map (lines 114 to 252)\<close>

datatype mode = From | To

text \<open>
  The twelve form elements the script looks up: the visible place-name inputs
  (\<open>#offer-from\<close>, ...) and the hidden coordinate inputs (\<open>offer_from_lat\<close>, ...).
\<close>

datatype field =
    OfferFromField | OfferToField | RequestFromField | RequestToField
  | OfferFromLat | OfferFromLng | OfferToLat | OfferToLng
  | RequestFromLat | RequestFromLng | RequestToLat | RequestToLng

text \<open>A Leaflet marker: where it is, and whether it has been added to the map.\<close>

record marker =
  position :: latlng
  onMap :: bool

text \<open>What the script does to the world outside its own variables, in order.\<close>

datatype effect =
    ConsoleLog mode latlng
  | ConsoleWarn error
  | AddTo mode
  | SetLatLng mode latlng
  | SetValue field jsval
  | Fetch rat rat

text \<open>
  The variables of the script and the form. \<open>form f = None\<close> means that the page has no
  element \<open>f\<close> (\<open>querySelector\<close> gave \<open>null\<close>); otherwise it holds the element's value.
  \<open>pending\<close> holds the reverse-geocoding requests that are in flight, each with the
  coordinates its continuation has captured; \<open>nextId\<close> names the next request.
  \<open>trace\<close> lists the effects so far. The highlighting of the two mode controls
  (\<open>updateModeUi\<close>) only toggles a style class and is left out.
\<close>

record page =
  currentMode :: mode
  form :: "field \<rightharpoonup> jsval"
  fromMarker :: marker
  toMarker :: marker
  fromMarkerAdded :: bool
  toMarkerAdded :: bool
  pending :: "nat \<rightharpoonup> latlng"
  nextId :: nat
  trace :: "effect list"

definition initial_page :: "(field \<rightharpoonup> jsval) \<Rightarrow> page" where
  "initial_page elements =
     \<lparr>currentMode = From, form = elements,
      fromMarker = \<lparr>position = DEFAULT_CENTER, onMap = False\<rparr>,
      toMarker = \<lparr>position = DEFAULT_CENTER, onMap = False\<rparr>,
      fromMarkerAdded = False, toMarkerAdded = False,
      pending = Map.empty, nextId = 0, trace = []\<rparr>"

definition setFieldValue :: "field \<Rightarrow> jsval \<Rightarrow> page \<Rightarrow> page" where
  "setFieldValue f v s =
     (case form s f of
        None \<Rightarrow> s
      | Some old \<Rightarrow> s\<lparr>form := (form s)(f \<mapsto> v), trace := trace s @ [SetValue f v]\<rparr>)"

definition setLatLngInputs :: "rat \<Rightarrow> rat \<Rightarrow> mode \<Rightarrow> page \<Rightarrow> page" where
  "setLatLngInputs lat' lng' which s =
     (if which = From then
        (let s = setFieldValue OfferFromLat (JNum lat') s;
             s = setFieldValue OfferFromLng (JNum lng') s;
             s = setFieldValue RequestFromLat (JNum lat') s
         in setFieldValue RequestFromLng (JNum lng') s)
      else
        (let s = setFieldValue OfferToLat (JNum lat') s;
             s = setFieldValue OfferToLng (JNum lng') s;
             s = setFieldValue RequestToLat (JNum lat') s
         in setFieldValue RequestToLng (JNum lng') s))"

subsection \<open>Reverse geocoding\<close>

text \<open>
  How a \<open>fetch\<close> settles: it rejects (no network, no answer), or it yields a response
  with a status and a body; \<open>res.json()\<close> rejects on a body that is not JSON and
  otherwise yields the parsed value. \<open>res.ok\<close> holds for the statuses 200 to 299.
\<close>

datatype body = Unparseable | Parsed jsval

datatype outcome = Unreachable | Response nat body

definition ok :: "nat \<Rightarrow> bool" where
  "ok status = (200 \<le> status \<and> status \<le> 299)"

datatype 'a promise = Fulfilled 'a | Rejected error

text \<open>
  The expression that picks the label (lines 203 to 209). \<open>||\<close> yields its left operand
  when that is truthy and its right operand otherwise; \<open>&&\<close> yields its left operand
  when that is falsy.
\<close>

definition pick_label :: "rat \<Rightarrow> rat \<Rightarrow> jsval \<Rightarrow> error + jsval" where
  "pick_label lat' lng' data =
     (case getprop data ''address'' of
        Inl e \<Rightarrow> Inl e
      | Inr address \<Rightarrow>
          (case (if truthy address
                 then (case getprop address ''village'' of
                         Inl e \<Rightarrow> Inl e
                       | Inr village \<Rightarrow>
                           if truthy village then Inr village
                           else (case getprop address ''town'' of
                                   Inl e \<Rightarrow> Inl e
                                 | Inr town \<Rightarrow>
                                     if truthy town then Inr town
                                     else getprop address ''city''))
                 else Inr address) of
             Inl e \<Rightarrow> Inl e
           | Inr place \<Rightarrow>
               if truthy place then Inr place
               else (case getprop data ''display_name'' of
                       Inl e \<Rightarrow> Inl e
                     | Inr display_name \<Rightarrow>
                         if truthy display_name then Inr display_name
                         else Inr (JStr (coords_label lat' lng')))))"

text \<open>\<open>if (typeof callback === "function") callback(label)\<close>.\<close>

definition call_if_function :: "(jsval \<Rightarrow> page \<Rightarrow> page) option \<Rightarrow> jsval \<Rightarrow> page \<Rightarrow> page" where
  "call_if_function callback label s = (case callback of Some f \<Rightarrow> f label s | None \<Rightarrow> s)"

text \<open>
  \<open>reverseGeocode\<close> in two halves. The first half runs inside the caller: it issues the
  request. The second half is the promise chain \<open>.then(..).then(..).catch(..)\<close>, run when
  the request settles; it yields the state of the last promise of the chain and the page
  after the handlers have run. A continuation is a function on the page; the only one
  this script passes writes form fields and cannot throw.
\<close>

definition reverseGeocode_issue :: "rat \<Rightarrow> rat \<Rightarrow> page \<Rightarrow> page" where
  "reverseGeocode_issue lat' lng' s =
     s\<lparr>pending := (pending s)(nextId s \<mapsto> LatLng lat' lng'),
       nextId := nextId s + 1,
       trace := trace s @ [Fetch lat' lng']\<rparr>"

definition first_then :: "outcome \<Rightarrow> jsval promise" where
  "first_then out =
     (case out of
        Unreachable \<Rightarrow> Rejected NetworkError
      | Response status b \<Rightarrow>
          if \<not> ok status then Rejected (HttpError status)
          else (case b of Unparseable \<Rightarrow> Rejected SyntaxError | Parsed data \<Rightarrow> Fulfilled data))"

definition second_then ::
  "rat \<Rightarrow> rat \<Rightarrow> (jsval \<Rightarrow> page \<Rightarrow> page) option \<Rightarrow> jsval promise \<Rightarrow> page \<Rightarrow> unit promise \<times> page" where
  "second_then lat' lng' callback p s =
     (case p of
        Rejected e \<Rightarrow> (Rejected e, s)
      | Fulfilled data \<Rightarrow>
          (case pick_label lat' lng' data of
             Inl e \<Rightarrow> (Rejected e, s)
           | Inr label \<Rightarrow> (Fulfilled (), call_if_function callback label s)))"

definition final_catch ::
  "rat \<Rightarrow> rat \<Rightarrow> (jsval \<Rightarrow> page \<Rightarrow> page) option \<Rightarrow> unit promise \<times> page \<Rightarrow> unit promise \<times> page" where
  "final_catch lat' lng' callback ps =
     (case ps of
        (Fulfilled u, s) \<Rightarrow> (Fulfilled u, s)
      | (Rejected err, s) \<Rightarrow>
          (Fulfilled (),
           call_if_function callback (JStr (coords_label lat' lng'))
             (s\<lparr>trace := trace s @ [ConsoleWarn err]\<rparr>)))"

definition reverseGeocode_settle ::
  "rat \<Rightarrow> rat \<Rightarrow> (jsval \<Rightarrow> page \<Rightarrow> page) option \<Rightarrow> outcome \<Rightarrow> page \<Rightarrow> unit promise \<times> page" where
  "reverseGeocode_settle lat' lng' callback out s =
     final_catch lat' lng' callback (second_then lat' lng' callback (first_then out) s)"

subsection \<open>The event handlers\<close>

text \<open>The continuation that the click handler passes to \<open>reverseGeocode\<close> (lines 243 to 251).\<close>

definition write_label :: "jsval \<Rightarrow> page \<Rightarrow> page" where
  "write_label label s =
     (if currentMode s = From then
        setFieldValue RequestFromField label (setFieldValue OfferFromField label s)
      else
        setFieldValue RequestToField label (setFieldValue OfferToField label s))"

definition place_marker :: "latlng \<Rightarrow> page \<Rightarrow> page" where
  "place_marker p s =
     (if currentMode s = From then
        (let s = (if \<not> fromMarkerAdded s
                  then s\<lparr>fromMarker := (fromMarker s)\<lparr>onMap := True\<rparr>,
                         fromMarkerAdded := True,
                         trace := trace s @ [AddTo From]\<rparr>
                  else s)
         in s\<lparr>fromMarker := (fromMarker s)\<lparr>position := p\<rparr>,
              trace := trace s @ [SetLatLng From p]\<rparr>)
      else
        (let s = (if \<not> toMarkerAdded s
                  then s\<lparr>toMarker := (toMarker s)\<lparr>onMap := True\<rparr>,
                         toMarkerAdded := True,
                         trace := trace s @ [AddTo To]\<rparr>
                  else s)
         in s\<lparr>toMarker := (toMarker s)\<lparr>position := p\<rparr>,
              trace := trace s @ [SetLatLng To p]\<rparr>))"

text \<open>The handler of \<open>map.on("click", ..)\<close>, up to the point where it returns.\<close>

definition on_map_click :: "latlng \<Rightarrow> page \<Rightarrow> page" where
  "on_map_click p s =
     (let s = s\<lparr>trace := trace s @ [ConsoleLog (currentMode s) p]\<rparr>;
          s = place_marker p s;
          s = setLatLngInputs (lat p) (lng p) (currentMode s) s
      in reverseGeocode_issue (lat p) (lng p) s)"

text \<open>
  What can happen after the start: the user presses a mode control, the user clicks the
  map, or a request in flight settles. A request settles once; settling a request that
  is not in flight is not a possible event and changes nothing.
\<close>

datatype event = ModeControl mode | MapClick latlng | Settled nat outcome

fun step :: "event \<Rightarrow> page \<Rightarrow> page" where
  "step (ModeControl m) s = s\<lparr>currentMode := m\<rparr>"
| "step (MapClick p) s = on_map_click p s"
| "step (Settled i out) s =
     (case pending s i of
        None \<Rightarrow> s
      | Some p \<Rightarrow>
          snd (reverseGeocode_settle (lat p) (lng p) (Some write_label) out
                 (s\<lparr>pending := (pending s)(i := None)\<rparr>)))"

definition run :: "event list \<Rightarrow> page \<Rightarrow> page" where
  "run es s = fold step es s"

subsection \<open>Notions used to state the properties\<close>

text \<open>A coordinate property is present when it is neither \<open>null\<close> nor \<open>undefined\<close>.\<close>

fun present :: "numfield \<Rightarrow> bool" where
  "present Undefined = False"
| "present Null = False"
| "present (Num n) = True"

definition fully_coordinated :: "listing \<Rightarrow> bool" where
  "fully_coordinated r =
     (present (from_lat r) \<and> present (from_lng r) \<and> present (to_lat r) \<and> present (to_lng r))"

definition has_origin :: "listing \<Rightarrow> bool" where
  "has_origin r = (present (from_lat r) \<and> present (from_lng r))"

definition four_coordinates :: "listing \<Rightarrow> numfield \<times> numfield \<times> numfield \<times> numfield" where
  "four_coordinates r = (from_lat r, from_lng r, to_lat r, to_lng r)"

definition origin_coordinates :: "listing \<Rightarrow> numfield \<times> numfield" where
  "origin_coordinates r = (from_lat r, from_lng r)"

definition line_coordinates :: "polyline \<Rightarrow> numfield \<times> numfield \<times> numfield \<times> numfield" where
  "line_coordinates l =
     (Num (lat (line_from l)), Num (lng (line_from l)), Num (lat (line_to l)), Num (lng (line_to l)))"

definition marker_coordinates :: "circleMarker \<Rightarrow> numfield \<times> numfield" where
  "marker_coordinates c = (Num (lat (centre c)), Num (lng (centre c)))"

text \<open>Every coordinate that is on the map after the start: line ends and marker centres.\<close>

definition plotted :: "map_state \<Rightarrow> latlng list" where
  "plotted s = concat (map (\<lambda>l. [line_from l, line_to l]) (ridesLayer s)) @ map centre (requestsLayer s)"

text \<open>The bounds and the plotted coordinates belong together.\<close>

definition bounds_cover :: "map_state \<Rightarrow> bool" where
  "bounds_cover s =
     (case bounds s of
        None \<Rightarrow> plotted s = []
      | Some b \<Rightarrow> plotted s \<noteq> [] \<and> list_all (contains b) (plotted s))"

text \<open>A property of a JSON value, \<open>undefined\<close> where there is none.\<close>

fun member_of :: "jsval \<Rightarrow> string \<Rightarrow> jsval" where
  "member_of (JObj kvs) k = (case map_of kvs k of Some v \<Rightarrow> v | None \<Rightarrow> JUndefined)"
| "member_of v k = JUndefined"

text \<open>
  The label by priority among the values that are truthy (for a text: not empty):
  village, town, city, display name, and last the latitude and the longitude, each
  printed with five decimals, with a comma and a blank between them.
\<close>

definition priority_label :: "rat \<Rightarrow> rat \<Rightarrow> jsval \<Rightarrow> jsval" where
  "priority_label lat' lng' data =
     (let address = member_of data ''address''
      in if truthy (member_of address ''village'') then member_of address ''village''
         else if truthy (member_of address ''town'') then member_of address ''town''
         else if truthy (member_of address ''city'') then member_of address ''city''
         else if truthy (member_of data ''display_name'') then member_of data ''display_name''
         else JStr (toFixed 5 lat' @ '', '' @ toFixed 5 lng'))"

text \<open>
  A reverse-geocoding attempt fails when the service cannot be reached, answers with a
  status that is not a success, or sends a body that is not JSON or is \<open>null\<close>.
\<close>

fun attempt_fails :: "outcome \<Rightarrow> bool" where
  "attempt_fails Unreachable = True"
| "attempt_fails (Response status Unparseable) = True"
| "attempt_fails (Response status (Parsed JNull)) = True"
| "attempt_fails (Response status (Parsed JUndefined)) = True"
| "attempt_fails (Response status (Parsed data)) = (\<not> ok status)"

text \<open>The error with which a failed attempt reaches the \<open>catch\<close> handler.\<close>

definition failure :: "outcome \<Rightarrow> error" where
  "failure out =
     (case out of
        Unreachable \<Rightarrow> NetworkError
      | Response status b \<Rightarrow>
          if \<not> ok status then HttpError status
          else (case b of Unparseable \<Rightarrow> SyntaxError | Parsed data \<Rightarrow> TypeError))"

text \<open>The form elements a click in a mode writes to, in the order of the writes.\<close>

fun coord_targets :: "mode \<Rightarrow> latlng \<Rightarrow> (field \<times> jsval) list" where
  "coord_targets From p =
     [(OfferFromLat, JNum (lat p)), (OfferFromLng, JNum (lng p)),
      (RequestFromLat, JNum (lat p)), (RequestFromLng, JNum (lng p))]"
| "coord_targets To p =
     [(OfferToLat, JNum (lat p)), (OfferToLng, JNum (lng p)),
      (RequestToLat, JNum (lat p)), (RequestToLng, JNum (lng p))]"

fun label_targets :: "mode \<Rightarrow> jsval \<Rightarrow> (field \<times> jsval) list" where
  "label_targets From label = [(OfferFromField, label), (RequestFromField, label)]"
| "label_targets To label = [(OfferToField, label), (RequestToField, label)]"

text \<open>The writes that reach an element of the page; a missing element is passed over.\<close>

fun existing_writes :: "(field \<rightharpoonup> jsval) \<Rightarrow> (field \<times> jsval) list \<Rightarrow> effect list" where
  "existing_writes frm [] = []"
| "existing_writes frm ((f, v) # rest) =
     (if frm f = None then [] else [SetValue f v]) @ existing_writes frm rest"

fun is_write :: "effect \<Rightarrow> bool" where
  "is_write (SetValue f v) = True"
| "is_write e = False"

fun is_fetch :: "effect \<Rightarrow> bool" where
  "is_fetch (Fetch a b) = True"
| "is_fetch e = False"

fun settles :: "nat \<Rightarrow> event \<Rightarrow> bool" where
  "settles i (Settled j out) = (i = j)"
| "settles i e = False"

text \<open>The two placement markers and their flags, by mode.\<close>

fun marker_of :: "mode \<Rightarrow> page \<Rightarrow> marker" where
  "marker_of From s = fromMarker s"
| "marker_of To s = toMarker s"

fun added :: "mode \<Rightarrow> page \<Rightarrow> bool" where
  "added From s = fromMarkerAdded s"
| "added To s = toMarkerAdded s"

fun other_mode :: "mode \<Rightarrow> mode" where
  "other_mode From = To"
| "other_mode To = From"

text \<open>The effects on the marker of a mode.\<close>

fun concerns :: "mode \<Rightarrow> effect \<Rightarrow> bool" where
  "concerns m (AddTo m') = (m = m')"
| "concerns m (SetLatLng m' p) = (m = m')"
| "concerns m e = False"

definition marker_effects :: "mode \<Rightarrow> effect list \<Rightarrow> effect list" where
  "marker_effects m tr = filter (concerns m) tr"

text \<open>
  The points clicked while mode \<open>m\<close> was active, in a sequence of events that starts
  with mode \<open>cur\<close> active.
\<close>

fun clicks_in :: "mode \<Rightarrow> mode \<Rightarrow> event list \<Rightarrow> latlng list" where
  "clicks_in m cur [] = []"
| "clicks_in m cur (ModeControl m' # es) = clicks_in m m' es"
| "clicks_in m cur (MapClick p # es) =
     (if cur = m then p # clicks_in m cur es else clicks_in m cur es)"
| "clicks_in m cur (Settled i out # es) = clicks_in m cur es"

text \<open>A page on which all twelve form elements exist and are empty.\<close>

definition whole_form :: "field \<rightharpoonup> jsval" where
  "whole_form = (\<lambda>f. Some (JStr []))"

section \<open>Painting the feeds\<close>

lemma present_iff: "present x = (\<not> eq_null x)"
  by (cases x) simp_all

lemma present_Num: "present x \<Longrightarrow> \<exists>n. x = Num n"
  by (cases x) simp_all

lemma render_ride_skip: "\<not> fully_coordinated r \<Longrightarrow> render_ride r s = Inr s"
  by (auto simp: fully_coordinated_def render_ride_def present_iff)

lemma render_ride_draw:
  assumes "fully_coordinated r"
  shows "\<exists>a b c d. four_coordinates r = (Num a, Num b, Num c, Num d) \<and>
           render_ride r s =
             Inr (s\<lparr>ridesLayer := ridesLayer s @ [Polyline (LatLng a b) (LatLng c d)],
                    bounds := extend_bounds (LatLng c d) (extend_bounds (LatLng a b) (bounds s))\<rparr>)"
proof -
  from assms obtain a b c d where
    "from_lat r = Num a" "from_lng r = Num b" "to_lat r = Num c" "to_lng r = Num d"
    unfolding fully_coordinated_def by (blast dest: present_Num)
  then show ?thesis
    by (simp add: render_ride_def four_coordinates_def)
qed

lemma render_request_skip: "\<not> has_origin r \<Longrightarrow> render_request r s = Inr s"
  by (auto simp: has_origin_def render_request_def present_iff)

lemma render_request_draw:
  assumes "has_origin r"
  shows "\<exists>a b. origin_coordinates r = (Num a, Num b) \<and>
           render_request r s =
             Inr (s\<lparr>requestsLayer := requestsLayer s @ [CircleMarker (LatLng a b)],
                    bounds := extend_bounds (LatLng a b) (bounds s)\<rparr>)"
proof -
  from assms obtain a b where "from_lat r = Num a" "from_lng r = Num b"
    unfolding has_origin_def by (blast dest: present_Num)
  then show ?thesis
    by (simp add: render_request_def origin_coordinates_def)
qed

lemma contains_extend_new: "\<exists>b. extend_bounds p B = Some b \<and> contains b p"
  by (cases B) auto

lemma contains_extend_old:
  "contains b q \<Longrightarrow> \<exists>b'. extend_bounds p (Some b) = Some b' \<and> contains b' q"
  by (cases b) auto

lemma extend_cover:
  assumes "case B of None \<Rightarrow> ps = [] | Some b \<Rightarrow> ps \<noteq> [] \<and> list_all (contains b) ps"
  shows "\<exists>b'. extend_bounds p B = Some b' \<and> list_all (contains b') (ps @ [p])"
proof (cases B)
  case None
  with assms show ?thesis by simp
next
  case (Some b)
  obtain sw ne where b: "b = (sw, ne)" by (cases b)
  from Some assms have "list_all (contains b) ps" by simp
  then have "list_all (contains (LatLng (min (lat p) (lat sw)) (min (lng p) (lng sw)),
           LatLng (max (lat p) (lat ne)) (max (lng p) (lng ne)))) ps"
    unfolding b list_all_iff by auto
  then show ?thesis using Some b by simp
qed


lemma bounds_cover_line:
  assumes "bounds_cover s"
  shows "bounds_cover (s\<lparr>ridesLayer := ridesLayer s @ [Polyline f t],
                          bounds := extend_bounds t (extend_bounds f (bounds s))\<rparr>)"
proof -
  from assms have c: "case bounds s of None \<Rightarrow> plotted s = []
                       | Some b \<Rightarrow> plotted s \<noteq> [] \<and> list_all (contains b) (plotted s)"
    by (simp add: bounds_cover_def)
  from extend_cover [OF c, of f] obtain b1 where
    b1: "extend_bounds f (bounds s) = Some b1" "list_all (contains b1) (plotted s @ [f])"
    by blast
  then have "case Some b1 of None \<Rightarrow> plotted s @ [f] = []
              | Some b \<Rightarrow> plotted s @ [f] \<noteq> [] \<and> list_all (contains b) (plotted s @ [f])"
    by simp
  from extend_cover [OF this, of t] obtain b2 where
    b2: "extend_bounds t (Some b1) = Some b2" "list_all (contains b2) ((plotted s @ [f]) @ [t])"
    by blast
  then show ?thesis
    using b1 by (simp add: bounds_cover_def plotted_def)
qed

lemma bounds_cover_circle:
  assumes "bounds_cover s"
  shows "bounds_cover (s\<lparr>requestsLayer := requestsLayer s @ [CircleMarker f],
                          bounds := extend_bounds f (bounds s)\<rparr>)"
proof -
  from assms have c: "case bounds s of None \<Rightarrow> plotted s = []
                       | Some b \<Rightarrow> plotted s \<noteq> [] \<and> list_all (contains b) (plotted s)"
    by (simp add: bounds_cover_def)
  from extend_cover [OF c, of f] obtain b1 where
    b1: "extend_bounds f (bounds s) = Some b1" "list_all (contains b1) (plotted s @ [f])"
    by blast
  then show ?thesis
    by (simp add: bounds_cover_def plotted_def)
qed

lemma render_ride_step:
  "\<exists>s'. render_ride r s = Inr s' \<and>
        requestsLayer s' = requestsLayer s \<and> view s' = view s \<and>
        map line_coordinates (ridesLayer s') =
          map line_coordinates (ridesLayer s) @ map four_coordinates (filter fully_coordinated [r]) \<and>
        (bounds_cover s \<longrightarrow> bounds_cover s')"
proof (cases "fully_coordinated r")
  case False
  then show ?thesis by (simp add: render_ride_skip)
next
  case True
  from render_ride_draw [OF True, of s] obtain a b c d where
    "four_coordinates r = (Num a, Num b, Num c, Num d)"
    "render_ride r s =
       Inr (s\<lparr>ridesLayer := ridesLayer s @ [Polyline (LatLng a b) (LatLng c d)],
              bounds := extend_bounds (LatLng c d) (extend_bounds (LatLng a b) (bounds s))\<rparr>)"
    by blast
  then show ?thesis
    using True by (simp add: line_coordinates_def bounds_cover_line)
qed

lemma render_request_step:
  "\<exists>s'. render_request r s = Inr s' \<and>
        ridesLayer s' = ridesLayer s \<and> view s' = view s \<and>
        map marker_coordinates (requestsLayer s') =
          map marker_coordinates (requestsLayer s) @ map origin_coordinates (filter has_origin [r]) \<and>
        (bounds_cover s \<longrightarrow> bounds_cover s')"
proof (cases "has_origin r")
  case False
  then show ?thesis by (simp add: render_request_skip)
next
  case True
  from render_request_draw [OF True, of s] obtain a b where
    "origin_coordinates r = (Num a, Num b)"
    "render_request r s =
       Inr (s\<lparr>requestsLayer := requestsLayer s @ [CircleMarker (LatLng a b)],
              bounds := extend_bounds (LatLng a b) (bounds s)\<rparr>)"
    by blast
  then show ?thesis
    using True by (simp add: marker_coordinates_def bounds_cover_circle)
qed

lemma forEach_render_ride:
  "\<exists>s'. forEach render_ride rs s = Inr s' \<and>
        requestsLayer s' = requestsLayer s \<and> view s' = view s \<and>
        map line_coordinates (ridesLayer s') =
          map line_coordinates (ridesLayer s) @ map four_coordinates (filter fully_coordinated rs) \<and>
        (bounds_cover s \<longrightarrow> bounds_cover s')"
proof (induction rs arbitrary: s)
  case Nil
  show ?case by simp
next
  case (Cons r rs)
  from render_ride_step [of r s] obtain s1 where
    s1: "render_ride r s = Inr s1" "requestsLayer s1 = requestsLayer s" "view s1 = view s"
      "map line_coordinates (ridesLayer s1) =
         map line_coordinates (ridesLayer s) @ map four_coordinates (filter fully_coordinated [r])"
      "bounds_cover s \<longrightarrow> bounds_cover s1"
    by blast
  from Cons.IH [of s1] obtain s2 where
    s2: "forEach render_ride rs s1 = Inr s2" "requestsLayer s2 = requestsLayer s1" "view s2 = view s1"
      "map line_coordinates (ridesLayer s2) =
         map line_coordinates (ridesLayer s1) @ map four_coordinates (filter fully_coordinated rs)"
      "bounds_cover s1 \<longrightarrow> bounds_cover s2"
    by blast
  have "forEach render_ride (r # rs) s = Inr s2"
    using s1(1) s2(1) by simp
  moreover have "map line_coordinates (ridesLayer s2) =
      map line_coordinates (ridesLayer s) @ map four_coordinates (filter fully_coordinated (r # rs))"
    using s1(4) s2(4) by simp
  ultimately show ?case
    using s1(2,3,5) s2(2,3,5) by auto
qed

lemma forEach_render_request:
  "\<exists>s'. forEach render_request rs s = Inr s' \<and>
        ridesLayer s' = ridesLayer s \<and> view s' = view s \<and>
        map marker_coordinates (requestsLayer s') =
          map marker_coordinates (requestsLayer s) @ map origin_coordinates (filter has_origin rs) \<and>
        (bounds_cover s \<longrightarrow> bounds_cover s')"
proof (induction rs arbitrary: s)
  case Nil
  show ?case by simp
next
  case (Cons r rs)
  from render_request_step [of r s] obtain s1 where
    s1: "render_request r s = Inr s1" "ridesLayer s1 = ridesLayer s" "view s1 = view s"
      "map marker_coordinates (requestsLayer s1) =
         map marker_coordinates (requestsLayer s) @ map origin_coordinates (filter has_origin [r])"
      "bounds_cover s \<longrightarrow> bounds_cover s1"
    by blast
  from Cons.IH [of s1] obtain s2 where
    s2: "forEach render_request rs s1 = Inr s2" "ridesLayer s2 = ridesLayer s1" "view s2 = view s1"
      "map marker_coordinates (requestsLayer s2) =
         map marker_coordinates (requestsLayer s1) @ map origin_coordinates (filter has_origin rs)"
      "bounds_cover s1 \<longrightarrow> bounds_cover s2"
    by blast
  have "forEach render_request (r # rs) s = Inr s2"
    using s1(1) s2(1) by simp
  moreover have "map marker_coordinates (requestsLayer s2) =
      map marker_coordinates (requestsLayer s) @ map origin_coordinates (filter has_origin (r # rs))"
    using s1(4) s2(4) by simp
  ultimately show ?case
    using s1(2,3,5) s2(2,3,5) by auto
qed

text \<open>What the start leaves behind, in one statement.\<close>

lemma startup_result:
  "\<exists>s2. startup ridesData requestsData = Inr (fit_if_valid s2) \<and>
         view s2 = SetView DEFAULT_CENTER DEFAULT_ZOOM \<and>
         map line_coordinates (ridesLayer s2) =
           map four_coordinates (filter fully_coordinated (array_or_empty ridesData)) \<and>
         map marker_coordinates (requestsLayer s2) =
           map origin_coordinates (filter has_origin (array_or_empty requestsData)) \<and>
         bounds_cover s2"
proof -
  have c0: "bounds_cover fresh_map"
    by (simp add: bounds_cover_def fresh_map_def plotted_def)
  from forEach_render_ride [of "array_or_empty ridesData" fresh_map] obtain s1 where
    s1: "forEach render_ride (array_or_empty ridesData) fresh_map = Inr s1"
      "requestsLayer s1 = requestsLayer fresh_map" "view s1 = view fresh_map"
      "map line_coordinates (ridesLayer s1) =
         map line_coordinates (ridesLayer fresh_map) @
         map four_coordinates (filter fully_coordinated (array_or_empty ridesData))"
      "bounds_cover s1"
    using c0 by blast
  from forEach_render_request [of "array_or_empty requestsData" s1] obtain s2 where
    s2: "forEach render_request (array_or_empty requestsData) s1 = Inr s2"
      "ridesLayer s2 = ridesLayer s1" "view s2 = view s1"
      "map marker_coordinates (requestsLayer s2) =
         map marker_coordinates (requestsLayer s1) @
         map origin_coordinates (filter has_origin (array_or_empty requestsData))"
      "bounds_cover s2"
    using s1(5) by blast
  have "startup ridesData requestsData = Inr (fit_if_valid s2)"
    using s1(1) s2(1) by (simp add: startup_def)
  then show ?thesis
    using s1(2,3,4) s2(2,3,4,5) by (auto simp: fresh_map_def)
qed

lemma fit_if_valid_layers:
  "ridesLayer (fit_if_valid s) = ridesLayer s" "requestsLayer (fit_if_valid s) = requestsLayer s"
  "bounds (fit_if_valid s) = bounds s" "plotted (fit_if_valid s) = plotted s"
  by (auto simp: fit_if_valid_def plotted_def split: option.splits)


text \<open>
  Claim C1. For every ride feed \<open>rides\<close>, the start of the script succeeds, and the
  lines on the rides overlay are, in order, the lines of exactly those records of
  \<open>rides\<close> whose four coordinate properties are all present; a record that lacks one
  contributes nothing. So the number of lines is the number of fully coordinated rides.
\<close>
theorem ride_lines_are_the_fully_coordinated_rides:
  "\<exists>s. startup (Some rides) requestsData = Inr s \<and>
        map line_coordinates (ridesLayer s) = map four_coordinates (filter fully_coordinated rides) \<and>
        length (ridesLayer s) = length (filter fully_coordinated rides)"
proof -
  from startup_result [of "Some rides" requestsData] obtain s2 where
    s2: "startup (Some rides) requestsData = Inr (fit_if_valid s2)"
      "map line_coordinates (ridesLayer s2) =
         map four_coordinates (filter fully_coordinated (array_or_empty (Some rides)))"
    by blast
  have feed: "array_or_empty (Some rides) = rides"
    by (simp add: array_or_empty_def)
  from s2(2) have "length (ridesLayer s2) = length (filter fully_coordinated rides)"
    unfolding feed by (rule map_eq_imp_length_eq)
  with s2 feed show ?thesis
    by (auto simp: fit_if_valid_layers)
qed

text \<open>
  Three rides: one with all four coordinates, one without a destination latitude, one
  whose coordinates are all 0. Two lines are drawn, the first and the third.
\<close>
theorem ride_lines_are_the_fully_coordinated_rides_witness:
  "filter fully_coordinated
     [\<lparr>from_lat = Num 1, from_lng = Num 2, to_lat = Num 3, to_lng = Num 4\<rparr>,
      \<lparr>from_lat = Num 5, from_lng = Num 6, to_lat = Null, to_lng = Num 7\<rparr>,
      \<lparr>from_lat = Num 0, from_lng = Num 0, to_lat = Num 0, to_lng = Num 0\<rparr>] =
     [\<lparr>from_lat = Num 1, from_lng = Num 2, to_lat = Num 3, to_lng = Num 4\<rparr>,
      \<lparr>from_lat = Num 0, from_lng = Num 0, to_lat = Num 0, to_lng = Num 0\<rparr>] \<and>
   (\<exists>s. startup (Some
       [\<lparr>from_lat = Num 1, from_lng = Num 2, to_lat = Num 3, to_lng = Num 4\<rparr>,
        \<lparr>from_lat = Num 5, from_lng = Num 6, to_lat = Null, to_lng = Num 7\<rparr>,
        \<lparr>from_lat = Num 0, from_lng = Num 0, to_lat = Num 0, to_lng = Num 0\<rparr>]) None = Inr s \<and>
      ridesLayer s = [Polyline (LatLng 1 2) (LatLng 3 4), Polyline (LatLng 0 0) (LatLng 0 0)])"
  using ride_lines_are_the_fully_coordinated_rides
    [of "[\<lparr>from_lat = Num 1, from_lng = Num 2, to_lat = Num 3, to_lng = Num 4\<rparr>,
          \<lparr>from_lat = Num 5, from_lng = Num 6, to_lat = Null, to_lng = Num 7\<rparr>,
          \<lparr>from_lat = Num 0, from_lng = Num 0, to_lat = Num 0, to_lng = Num 0\<rparr>]" None]
  by (simp add: fully_coordinated_def startup_def array_or_empty_def render_ride_def
      fresh_map_def fit_if_valid_def)

text \<open>
  Claim C2. For every request feed \<open>requests\<close>, the markers on the requests overlay
  are, in order, one marker for each record of \<open>requests\<close> whose \<open>from_lat\<close> and
  \<open>from_lng\<close> are both present, whatever its other properties are; a record that
  lacks one of the two adds none.
\<close>
theorem request_markers_are_the_requests_with_origin:
  "\<exists>s. startup ridesData (Some requests) = Inr s \<and>
        map marker_coordinates (requestsLayer s) = map origin_coordinates (filter has_origin requests) \<and>
        length (requestsLayer s) = length (filter has_origin requests)"
proof -
  from startup_result [of ridesData "Some requests"] obtain s2 where
    s2: "startup ridesData (Some requests) = Inr (fit_if_valid s2)"
      "map marker_coordinates (requestsLayer s2) =
         map origin_coordinates (filter has_origin (array_or_empty (Some requests)))"
    by blast
  have feed: "array_or_empty (Some requests) = requests"
    by (simp add: array_or_empty_def)
  from s2(2) have "length (requestsLayer s2) = length (filter has_origin requests)"
    unfolding feed by (rule map_eq_imp_length_eq)
  with s2 feed show ?thesis
    by (auto simp: fit_if_valid_layers)
qed

text \<open>
  Three requests: one with an origin and no destination, one without an origin
  longitude, one with an origin at (0, 0) and a \<open>null\<close> destination. Two markers are
  added, for the first and the third.
\<close>
theorem request_markers_are_the_requests_with_origin_witness:
  "filter has_origin
     [\<lparr>from_lat = Num 1, from_lng = Num 2, to_lat = Undefined, to_lng = Undefined\<rparr>,
      \<lparr>from_lat = Num 5, from_lng = Undefined, to_lat = Num 3, to_lng = Num 7\<rparr>,
      \<lparr>from_lat = Num 0, from_lng = Num 0, to_lat = Null, to_lng = Null\<rparr>] =
     [\<lparr>from_lat = Num 1, from_lng = Num 2, to_lat = Undefined, to_lng = Undefined\<rparr>,
      \<lparr>from_lat = Num 0, from_lng = Num 0, to_lat = Null, to_lng = Null\<rparr>] \<and>
   (\<exists>s. startup None (Some
       [\<lparr>from_lat = Num 1, from_lng = Num 2, to_lat = Undefined, to_lng = Undefined\<rparr>,
        \<lparr>from_lat = Num 5, from_lng = Undefined, to_lat = Num 3, to_lng = Num 7\<rparr>,
        \<lparr>from_lat = Num 0, from_lng = Num 0, to_lat = Null, to_lng = Null\<rparr>]) = Inr s \<and>
      requestsLayer s = [CircleMarker (LatLng 1 2), CircleMarker (LatLng 0 0)])"
  using request_markers_are_the_requests_with_origin
    [of None "[\<lparr>from_lat = Num 1, from_lng = Num 2, to_lat = Undefined, to_lng = Undefined\<rparr>,
          \<lparr>from_lat = Num 5, from_lng = Undefined, to_lat = Num 3, to_lng = Num 7\<rparr>,
          \<lparr>from_lat = Num 0, from_lng = Num 0, to_lat = Null, to_lng = Null\<rparr>]"]
  by (simp add: has_origin_def startup_def array_or_empty_def render_request_def
      fresh_map_def fit_if_valid_def)

lemma plotted_empty_iff:
  "(plotted s = []) = (ridesLayer s = [] \<and> requestsLayer s = [])"
  by (cases "ridesLayer s") (simp_all add: plotted_def)

text \<open>
  Claim C3, amended. If no record of the two feeds has its required coordinates (as when
  both feeds are empty), nothing is plotted and the map keeps the default centre and
  zoom. Otherwise the viewport is fitted, with padding 24 by 24, to the accumulated
  bounds, and these bounds contain every plotted coordinate.
\<close>
theorem viewport_fitted_when_something_is_plotted:
  "\<exists>s. startup ridesData requestsData = Inr s \<and>
        (if filter fully_coordinated (array_or_empty ridesData) = [] \<and>
            filter has_origin (array_or_empty requestsData) = []
         then plotted s = [] \<and> view s = SetView DEFAULT_CENTER DEFAULT_ZOOM
         else plotted s \<noteq> [] \<and>
              (\<exists>b. bounds s = Some b \<and> view s = FitBounds b 24 24 \<and>
                    list_all (contains b) (plotted s)))"
proof -
  from startup_result [of ridesData requestsData] obtain s2 where
    s2: "startup ridesData requestsData = Inr (fit_if_valid s2)"
      "view s2 = SetView DEFAULT_CENTER DEFAULT_ZOOM"
      "map line_coordinates (ridesLayer s2) =
         map four_coordinates (filter fully_coordinated (array_or_empty ridesData))"
      "map marker_coordinates (requestsLayer s2) =
         map origin_coordinates (filter has_origin (array_or_empty requestsData))"
      "bounds_cover s2"
    by blast
  have e: "(filter fully_coordinated (array_or_empty ridesData) = [] \<and>
            filter has_origin (array_or_empty requestsData) = []) = (plotted s2 = [])"
    using s2(3,4) unfolding plotted_empty_iff
    by (metis map_is_Nil_conv)
  show ?thesis
  proof (cases "plotted s2 = []")
    case True
    with s2(5) have "bounds s2 = None"
      by (simp add: bounds_cover_def split: option.splits)
    then have "fit_if_valid s2 = s2"
      by (simp add: fit_if_valid_def)
    with True s2 e show ?thesis by simp
  next
    case False
    with s2(5) obtain b where b: "bounds s2 = Some b" "list_all (contains b) (plotted s2)"
      by (auto simp: bounds_cover_def split: option.splits)
    then have "view (fit_if_valid s2) = FitBounds b 24 24"
      by (simp add: fit_if_valid_def)
    with False b s2(1) e show ?thesis
      by (simp add: fit_if_valid_layers)
  qed
qed

text \<open>One ride from (1, 2) to (3, 0): the viewport is fitted to the box around both ends.\<close>
theorem viewport_fitted_when_something_is_plotted_witness:
  "startup (Some [\<lparr>from_lat = Num 1, from_lng = Num 2, to_lat = Num 3, to_lng = Num 0\<rparr>]) (Some []) =
     Inr \<lparr>ridesLayer = [Polyline (LatLng 1 2) (LatLng 3 0)], requestsLayer = [],
          bounds = Some (LatLng 1 0, LatLng 3 2),
          view = FitBounds (LatLng 1 0, LatLng 3 2) 24 24\<rparr> \<and>
   list_all (contains (LatLng 1 0, LatLng 3 2)) [LatLng 1 2, LatLng 3 0]"
  using viewport_fitted_when_something_is_plotted
    [of "Some [\<lparr>from_lat = Num 1, from_lng = Num 2, to_lat = Num 3, to_lng = Num 0\<rparr>]" "Some []"]
  by (simp add: startup_def array_or_empty_def render_ride_def fresh_map_def fit_if_valid_def)

text \<open>
  Claim C3 as stated fails: a feed that holds one ride without coordinates is not empty,
  yet no bounds are accumulated and the viewport stays at the default view.
\<close>
theorem unlocated_record_leaves_default_view:
  "startup (Some [\<lparr>from_lat = Null, from_lng = Null, to_lat = Null, to_lng = Null\<rparr>]) (Some []) =
     Inr \<lparr>ridesLayer = [], requestsLayer = [], bounds = None,
          view = SetView DEFAULT_CENTER DEFAULT_ZOOM\<rparr>"
  by (simp add: startup_def array_or_empty_def render_ride_def fresh_map_def fit_if_valid_def)

text \<open>The two models of the callbacks do the same on a record of the feed.\<close>

lemma widen_eq_null: "eq_null_property (widen x) = eq_null x"
  by (cases x) simp_all

lemma widen_latLng: "latLng_property (widen x) (widen y) = latLng x y"
  by (cases x; cases y) simp_all

lemma coordinates_object_sel:
  "coordinates_object a b c d ''from_lat'' = a"
  "coordinates_object a b c d ''from_lng'' = b"
  "coordinates_object a b c d ''to_lat'' = c"
  "coordinates_object a b c d ''to_lng'' = d"
  by (simp_all add: coordinates_object_def)

lemma object_callbacks_agree:
  "render_ride_object (object_of r) s = render_ride r s"
  "render_request_object (object_of r) s = render_request r s"
  unfolding render_ride_object_def render_ride_def render_request_object_def
    render_request_def object_of_def coordinates_object_sel widen_eq_null widen_latLng
  by simp_all

lemma eq_null_property_iff: "eq_null_property x = (x \<in> {PNull, PUndefined})"
  by (cases x) simp_all

lemma latLng_property_raises:
  "\<not> eq_null_property x \<Longrightarrow> \<not> eq_null_property y \<Longrightarrow>
   (latLng_property x y = Inl InvalidLatLng) = (x = PNaN \<or> y = PNaN)"
  by (cases x; cases y) simp_all

lemma latLng_property_cases:
  "latLng_property x y = Inl InvalidLatLng \<or> (\<exists>p. latLng_property x y = Inr p)"
  by (cases x; cases y) simp_all

lemma line_changes_map: "s\<lparr>ridesLayer := ridesLayer s @ [l], bounds := B\<rparr> \<noteq> s"
proof
  assume "s\<lparr>ridesLayer := ridesLayer s @ [l], bounds := B\<rparr> = s"
  then have "ridesLayer (s\<lparr>ridesLayer := ridesLayer s @ [l], bounds := B\<rparr>) = ridesLayer s"
    by simp
  then show False by simp
qed

lemma marker_changes_map: "s\<lparr>requestsLayer := requestsLayer s @ [c], bounds := B\<rparr> \<noteq> s"
proof
  assume "s\<lparr>requestsLayer := requestsLayer s @ [c], bounds := B\<rparr> = s"
  then have "requestsLayer (s\<lparr>requestsLayer := requestsLayer s @ [c], bounds := B\<rparr>) = requestsLayer s"
    by simp
  then show False by simp
qed

text \<open>
  Claim C10, amended. A coordinate equal to 0 counts as present: a ride is passed over
  exactly when one of its four coordinate properties is \<open>null\<close> or \<open>undefined\<close>, and a
  request exactly when one of its two origin properties is, so a record whose required
  coordinates are numbers, 0 among them, is drawn. \<open>NaN\<close>, the other falsy number, is
  not passed over either, but it is not drawn: where no required coordinate is \<open>null\<close>
  or \<open>undefined\<close> and one is \<open>NaN\<close>, Leaflet raises and the callback ends with that
  exception.
\<close>
theorem zero_is_drawn_and_nan_raises:
  "(render_ride_object r s = Inr s) =
     (r ''from_lat'' \<in> {PNull, PUndefined} \<or> r ''from_lng'' \<in> {PNull, PUndefined} \<or>
      r ''to_lat'' \<in> {PNull, PUndefined} \<or> r ''to_lng'' \<in> {PNull, PUndefined}) \<and>
   (render_request_object q s = Inr s) =
     (q ''from_lat'' \<in> {PNull, PUndefined} \<or> q ''from_lng'' \<in> {PNull, PUndefined}) \<and>
   render_ride_object (coordinates_object (PNum a) (PNum b) (PNum c) (PNum d)) s =
     Inr (s\<lparr>ridesLayer := ridesLayer s @ [Polyline (LatLng a b) (LatLng c d)],
            bounds := extend_bounds (LatLng c d) (extend_bounds (LatLng a b) (bounds s))\<rparr>) \<and>
   render_request_object (coordinates_object (PNum a) (PNum b) x y) s =
     Inr (s\<lparr>requestsLayer := requestsLayer s @ [CircleMarker (LatLng a b)],
            bounds := extend_bounds (LatLng a b) (bounds s)\<rparr>) \<and>
   (render_ride_object r s = Inl InvalidLatLng) =
     (r ''from_lat'' \<notin> {PNull, PUndefined} \<and> r ''from_lng'' \<notin> {PNull, PUndefined} \<and>
      r ''to_lat'' \<notin> {PNull, PUndefined} \<and> r ''to_lng'' \<notin> {PNull, PUndefined} \<and>
      PNaN \<in> {r ''from_lat'', r ''from_lng'', r ''to_lat'', r ''to_lng''}) \<and>
   (render_request_object q s = Inl InvalidLatLng) =
     (q ''from_lat'' \<notin> {PNull, PUndefined} \<and> q ''from_lng'' \<notin> {PNull, PUndefined} \<and>
      PNaN \<in> {q ''from_lat'', q ''from_lng''})"
proof -
  have ride_skip: "(render_ride_object r s = Inr s) =
     (r ''from_lat'' \<in> {PNull, PUndefined} \<or> r ''from_lng'' \<in> {PNull, PUndefined} \<or>
      r ''to_lat'' \<in> {PNull, PUndefined} \<or> r ''to_lng'' \<in> {PNull, PUndefined})"
  proof (cases "eq_null_property (r ''from_lat'') \<or> eq_null_property (r ''from_lng'') \<or>
         eq_null_property (r ''to_lat'') \<or> eq_null_property (r ''to_lng'')")
    case True
    then show ?thesis
      by (simp add: render_ride_object_def eq_null_property_iff)
  next
    case False
    then have "render_ride_object r s \<noteq> Inr s"
      using latLng_property_cases [of "r ''from_lat''" "r ''from_lng''"]
        latLng_property_cases [of "r ''to_lat''" "r ''to_lng''"]
      by (auto simp: render_ride_object_def line_changes_map)
    with False show ?thesis
      by (simp add: eq_null_property_iff)
  qed
  have request_skip: "(render_request_object q s = Inr s) =
     (q ''from_lat'' \<in> {PNull, PUndefined} \<or> q ''from_lng'' \<in> {PNull, PUndefined})"
  proof (cases "eq_null_property (q ''from_lat'') \<or> eq_null_property (q ''from_lng'')")
    case True
    then show ?thesis
      by (simp add: render_request_object_def eq_null_property_iff)
  next
    case False
    then have "render_request_object q s \<noteq> Inr s"
      using latLng_property_cases [of "q ''from_lat''" "q ''from_lng''"]
      by (auto simp: render_request_object_def marker_changes_map)
    with False show ?thesis
      by (simp add: eq_null_property_iff)
  qed
  have ride_drawn:
    "render_ride_object (coordinates_object (PNum a) (PNum b) (PNum c) (PNum d)) s =
     Inr (s\<lparr>ridesLayer := ridesLayer s @ [Polyline (LatLng a b) (LatLng c d)],
            bounds := extend_bounds (LatLng c d) (extend_bounds (LatLng a b) (bounds s))\<rparr>)"
    by (simp add: render_ride_object_def coordinates_object_sel)
  have request_drawn:
    "render_request_object (coordinates_object (PNum a) (PNum b) x y) s =
     Inr (s\<lparr>requestsLayer := requestsLayer s @ [CircleMarker (LatLng a b)],
            bounds := extend_bounds (LatLng a b) (bounds s)\<rparr>)"
    by (simp add: render_request_object_def coordinates_object_sel)
  have ride_raises: "(render_ride_object r s = Inl InvalidLatLng) =
     (r ''from_lat'' \<notin> {PNull, PUndefined} \<and> r ''from_lng'' \<notin> {PNull, PUndefined} \<and>
      r ''to_lat'' \<notin> {PNull, PUndefined} \<and> r ''to_lng'' \<notin> {PNull, PUndefined} \<and>
      PNaN \<in> {r ''from_lat'', r ''from_lng'', r ''to_lat'', r ''to_lng''})"
  proof (cases "eq_null_property (r ''from_lat'') \<or> eq_null_property (r ''from_lng'') \<or>
         eq_null_property (r ''to_lat'') \<or> eq_null_property (r ''to_lng'')")
    case True
    then show ?thesis
      by (auto simp: render_ride_object_def eq_null_property_iff)
  next
    case False
    then have n: "\<not> eq_null_property (r ''from_lat'')" "\<not> eq_null_property (r ''from_lng'')"
      "\<not> eq_null_property (r ''to_lat'')" "\<not> eq_null_property (r ''to_lng'')"
      by simp_all
    have "(render_ride_object r s = Inl InvalidLatLng) =
        (latLng_property (r ''from_lat'') (r ''from_lng'') = Inl InvalidLatLng \<or>
         latLng_property (r ''to_lat'') (r ''to_lng'') = Inl InvalidLatLng)"
      using n latLng_property_cases [of "r ''from_lat''" "r ''from_lng''"]
        latLng_property_cases [of "r ''to_lat''" "r ''to_lng''"]
      by (auto simp: render_ride_object_def)
    also have "\<dots> = (PNaN \<in> {r ''from_lat'', r ''from_lng'', r ''to_lat'', r ''to_lng''})"
      using latLng_property_raises [OF n(1,2)] latLng_property_raises [OF n(3,4)]
      by auto
    finally show ?thesis
      using n by (simp add: eq_null_property_iff)
  qed
  have request_raises: "(render_request_object q s = Inl InvalidLatLng) =
     (q ''from_lat'' \<notin> {PNull, PUndefined} \<and> q ''from_lng'' \<notin> {PNull, PUndefined} \<and>
      PNaN \<in> {q ''from_lat'', q ''from_lng''})"
  proof (cases "eq_null_property (q ''from_lat'') \<or> eq_null_property (q ''from_lng'')")
    case True
    then show ?thesis
      by (auto simp: render_request_object_def eq_null_property_iff)
  next
    case False
    then have n: "\<not> eq_null_property (q ''from_lat'')" "\<not> eq_null_property (q ''from_lng'')"
      by simp_all
    have "(render_request_object q s = Inl InvalidLatLng) =
        (latLng_property (q ''from_lat'') (q ''from_lng'') = Inl InvalidLatLng)"
      using n latLng_property_cases [of "q ''from_lat''" "q ''from_lng''"]
      by (auto simp: render_request_object_def)
    also have "\<dots> = (PNaN \<in> {q ''from_lat'', q ''from_lng''})"
      using latLng_property_raises [OF n(1,2)] by auto
    finally show ?thesis
      using n by (simp add: eq_null_property_iff)
  qed
  from ride_skip request_skip ride_drawn request_drawn ride_raises request_raises
  show ?thesis by blast
qed

text \<open>
  A ride and a request whose coordinates are all 0 are drawn, on the plain objects and
  on the records of the feed alike.
\<close>
theorem zero_is_drawn_and_nan_raises_witness:
  "render_ride_object (coordinates_object (PNum 0) (PNum 0) (PNum 0) (PNum 0)) fresh_map =
     Inr \<lparr>ridesLayer = [Polyline (LatLng 0 0) (LatLng 0 0)], requestsLayer = [],
          bounds = Some (LatLng 0 0, LatLng 0 0), view = SetView DEFAULT_CENTER DEFAULT_ZOOM\<rparr> \<and>
   render_request_object (coordinates_object (PNum 0) (PNum 0) PUndefined PUndefined) fresh_map =
     Inr \<lparr>ridesLayer = [], requestsLayer = [CircleMarker (LatLng 0 0)],
          bounds = Some (LatLng 0 0, LatLng 0 0), view = SetView DEFAULT_CENTER DEFAULT_ZOOM\<rparr> \<and>
   render_ride \<lparr>from_lat = Num 0, from_lng = Num 0, to_lat = Num 0, to_lng = Num 0\<rparr> fresh_map =
     Inr \<lparr>ridesLayer = [Polyline (LatLng 0 0) (LatLng 0 0)], requestsLayer = [],
          bounds = Some (LatLng 0 0, LatLng 0 0), view = SetView DEFAULT_CENTER DEFAULT_ZOOM\<rparr>"
  using zero_is_drawn_and_nan_raises
    [of "coordinates_object (PNum 0) (PNum 0) (PNum 0) (PNum 0)" fresh_map
        "coordinates_object (PNum 0) (PNum 0) PUndefined PUndefined" 0 0 0 0 PUndefined PUndefined]
    object_callbacks_agree(1)
      [of "\<lparr>from_lat = Num 0, from_lng = Num 0, to_lat = Num 0, to_lng = Num 0\<rparr>" fresh_map]
  by (simp add: fresh_map_def object_of_def)

text \<open>
  Claim C10 as stated fails for \<open>NaN\<close>, a falsy number that is not \<open>null\<close>: the guard
  lets the ride through, Leaflet raises, and no line is drawn, neither for it nor for
  the ride after it.
\<close>
theorem nan_coordinate_is_not_drawn:
  "eq_null_property PNaN = False \<and>
   render_ride_object (coordinates_object PNaN (PNum 0) (PNum 0) (PNum 0)) fresh_map =
     Inl InvalidLatLng \<and>
   forEach render_ride_object
     [coordinates_object PNaN (PNum 0) (PNum 0) (PNum 0),
      coordinates_object (PNum 1) (PNum 2) (PNum 3) (PNum 4)] fresh_map = Inl InvalidLatLng"
  by (simp add: render_ride_object_def coordinates_object_sel)

section \<open>Writing form fields\<close>

lemma setFieldValue_frame:
  "currentMode (setFieldValue f v s) = currentMode s"
  "fromMarker (setFieldValue f v s) = fromMarker s"
  "toMarker (setFieldValue f v s) = toMarker s"
  "fromMarkerAdded (setFieldValue f v s) = fromMarkerAdded s"
  "toMarkerAdded (setFieldValue f v s) = toMarkerAdded s"
  "pending (setFieldValue f v s) = pending s"
  "nextId (setFieldValue f v s) = nextId s"
  by (simp_all add: setFieldValue_def split: option.splits)

lemma setFieldValue_present:
  "(form (setFieldValue f v s) g = None) = (form s g = None)"
  by (simp add: setFieldValue_def split: option.splits)

lemma setFieldValue_trace:
  "trace (setFieldValue f v s) = trace s @ (if form s f = None then [] else [SetValue f v])"
  by (simp add: setFieldValue_def split: option.splits)

lemma existing_writes_present:
  "(\<And>f. (frm f = None) = (frm' f = None)) \<Longrightarrow> existing_writes frm tv = existing_writes frm' tv"
  by (induction tv) auto

lemma setLatLngInputs_frame:
  "currentMode (setLatLngInputs a b m s) = currentMode s"
  "fromMarker (setLatLngInputs a b m s) = fromMarker s"
  "toMarker (setLatLngInputs a b m s) = toMarker s"
  "fromMarkerAdded (setLatLngInputs a b m s) = fromMarkerAdded s"
  "toMarkerAdded (setLatLngInputs a b m s) = toMarkerAdded s"
  "pending (setLatLngInputs a b m s) = pending s"
  "nextId (setLatLngInputs a b m s) = nextId s"
  by (simp_all add: setLatLngInputs_def Let_def setFieldValue_frame)

lemma setLatLngInputs_present:
  "(form (setLatLngInputs a b m s) g = None) = (form s g = None)"
  by (simp add: setLatLngInputs_def Let_def setFieldValue_present)

lemma setLatLngInputs_trace:
  "trace (setLatLngInputs a b m s) = trace s @ existing_writes (form s) (coord_targets m (LatLng a b))"
  by (cases m) (simp_all add: setLatLngInputs_def Let_def setFieldValue_trace setFieldValue_present)

lemma write_label_frame:
  "currentMode (write_label l s) = currentMode s"
  "fromMarker (write_label l s) = fromMarker s"
  "toMarker (write_label l s) = toMarker s"
  "fromMarkerAdded (write_label l s) = fromMarkerAdded s"
  "toMarkerAdded (write_label l s) = toMarkerAdded s"
  "pending (write_label l s) = pending s"
  "nextId (write_label l s) = nextId s"
  by (simp_all add: write_label_def setFieldValue_frame)

lemma write_label_present:
  "(form (write_label l s) g = None) = (form s g = None)"
  by (simp add: write_label_def setFieldValue_present)

lemma write_label_trace:
  "trace (write_label l s) = trace s @ existing_writes (form s) (label_targets (currentMode s) l)"
  by (cases "currentMode s")
     (simp_all add: write_label_def setFieldValue_trace setFieldValue_present setFieldValue_frame)

section \<open>A click on the map\<close>

lemma place_marker_frame:
  "currentMode (place_marker p s) = currentMode s"
  "form (place_marker p s) = form s"
  "pending (place_marker p s) = pending s"
  "nextId (place_marker p s) = nextId s"
  by (simp_all add: place_marker_def Let_def)

lemma place_marker_trace:
  "trace (place_marker p s) =
     trace s @ (if added (currentMode s) s then [] else [AddTo (currentMode s)]) @
     [SetLatLng (currentMode s) p]"
  by (cases "currentMode s") (simp_all add: place_marker_def Let_def)

lemma place_marker_own:
  "marker_of (currentMode s) (place_marker p s) =
     \<lparr>position = p, onMap = (if added (currentMode s) s then onMap (marker_of (currentMode s) s) else True)\<rparr>"
  "added (currentMode s) (place_marker p s) = True"
  by (cases "currentMode s"; simp add: place_marker_def Let_def)+

lemma place_marker_other:
  "m \<noteq> currentMode s \<Longrightarrow> marker_of m (place_marker p s) = marker_of m s"
  "m \<noteq> currentMode s \<Longrightarrow> added m (place_marker p s) = added m s"
  by (cases "currentMode s"; cases m; simp add: place_marker_def Let_def)+

lemma marker_of_frame:
  "fromMarker s' = fromMarker s \<Longrightarrow> toMarker s' = toMarker s \<Longrightarrow> marker_of m s' = marker_of m s"
  by (cases m) simp_all

lemma added_frame:
  "fromMarkerAdded s' = fromMarkerAdded s \<Longrightarrow> toMarkerAdded s' = toMarkerAdded s \<Longrightarrow>
   added m s' = added m s"
  by (cases m) simp_all

lemma trace_update_markers:
  "marker_of m (s\<lparr>trace := t\<rparr>) = marker_of m s"
  "added m (s\<lparr>trace := t\<rparr>) = added m s"
  by (cases m; simp)+

lemma on_map_click_frame:
  "currentMode (on_map_click p s) = currentMode s"
  "pending (on_map_click p s) = (pending s)(nextId s \<mapsto> p)"
  "nextId (on_map_click p s) = nextId s + 1"
  by (simp_all add: on_map_click_def Let_def reverseGeocode_issue_def setLatLngInputs_frame
      place_marker_frame)

lemma on_map_click_present:
  "(form (on_map_click p s) g = None) = (form s g = None)"
  by (simp add: on_map_click_def Let_def reverseGeocode_issue_def setLatLngInputs_present
      place_marker_frame)

lemma on_map_click_trace:
  "trace (on_map_click p s) =
     trace s @
     ([ConsoleLog (currentMode s) p] @
      (if added (currentMode s) s then [] else [AddTo (currentMode s)]) @
      [SetLatLng (currentMode s) p]) @
     existing_writes (form s) (coord_targets (currentMode s) p) @
     [Fetch (lat p) (lng p)]"
  by (simp add: on_map_click_def Let_def reverseGeocode_issue_def setLatLngInputs_trace
      setLatLngInputs_frame place_marker_frame place_marker_trace trace_update_markers)

lemma on_map_click_markers:
  "marker_of m (on_map_click p s) =
     (if m = currentMode s
      then \<lparr>position = p, onMap = (if added m s then onMap (marker_of m s) else True)\<rparr>
      else marker_of m s)"
  "added m (on_map_click p s) = (if m = currentMode s then True else added m s)"
proof -
  let ?s0 = "s\<lparr>trace := trace s @ [ConsoleLog (currentMode s) p]\<rparr>"
  let ?s1 = "place_marker p ?s0"
  let ?s2 = "setLatLngInputs (lat p) (lng p) (currentMode ?s1) ?s1"
  note m0 = trace_update_markers
  have c0: "currentMode ?s0 = currentMode s" by simp
  have m3: "marker_of m (on_map_click p s) = marker_of m ?s1"
    unfolding on_map_click_def Let_def
    by (rule marker_of_frame) (simp_all add: reverseGeocode_issue_def setLatLngInputs_frame)
  have a3: "added m (on_map_click p s) = added m ?s1"
    unfolding on_map_click_def Let_def
    by (rule added_frame) (simp_all add: reverseGeocode_issue_def setLatLngInputs_frame)
  show "marker_of m (on_map_click p s) =
     (if m = currentMode s
      then \<lparr>position = p, onMap = (if added m s then onMap (marker_of m s) else True)\<rparr>
      else marker_of m s)"
    using place_marker_own(1) [of ?s0 p] place_marker_other(1) [of m ?s0 p]
    by (simp add: m3 m0 c0 del: marker_of.simps added.simps)
  show "added m (on_map_click p s) = (if m = currentMode s then True else added m s)"
    using place_marker_own(2) [of ?s0 p] place_marker_other(2) [of m ?s0 p]
    by (simp add: a3 m0 c0 del: marker_of.simps added.simps)
qed


section \<open>Settling a request\<close>

lemma getprop_member_of:
  "data \<noteq> JUndefined \<Longrightarrow> data \<noteq> JNull \<Longrightarrow> getprop data k = Inr (member_of data k)"
  by (cases data) (simp_all split: option.splits)

lemma getprop_truthy: "truthy v \<Longrightarrow> getprop v k = Inr (member_of v k)"
  by (cases v) (simp_all split: option.splits)

lemma member_of_falsy: "\<not> truthy v \<Longrightarrow> member_of v k = JUndefined"
  by (cases v) simp_all

lemma pick_label_priority:
  assumes "data \<noteq> JUndefined" "data \<noteq> JNull"
  shows "pick_label a b data = Inr (priority_label a b data)"
proof (cases "truthy (member_of data ''address'')")
  case True
  then show ?thesis
    using assms
    by (simp add: pick_label_def priority_label_def coords_label_def Let_def getprop_member_of
        getprop_truthy)
next
  case False
  then have "member_of (member_of data ''address'') k = JUndefined" for k
    by (rule member_of_falsy)
  then show ?thesis
    using assms False
    by (simp add: pick_label_def priority_label_def coords_label_def Let_def getprop_member_of)
qed

lemma pick_label_null:
  "pick_label a b JNull = Inl TypeError" "pick_label a b JUndefined = Inl TypeError"
  by (simp_all add: pick_label_def)

lemma priority_label_null:
  "priority_label a b JNull = JStr (coords_label a b)"
  "priority_label a b JUndefined = JStr (coords_label a b)"
  by (simp_all add: priority_label_def coords_label_def)

lemma trace_append_Nil: "s\<lparr>trace := trace s @ []\<rparr> = (s::page)"
  by simp

lemma settle_parsed:
  assumes "ok status"
  shows "reverseGeocode_settle a b (Some cb) (Response status (Parsed data)) s =
     (Fulfilled (),
      cb (priority_label a b data)
        (s\<lparr>trace := trace s @
           (if data = JNull \<or> data = JUndefined then [ConsoleWarn TypeError] else [])\<rparr>))"
proof (cases "data = JNull \<or> data = JUndefined")
  case True
  then show ?thesis
    using assms
    by (auto simp: reverseGeocode_settle_def first_then_def second_then_def final_catch_def
        call_if_function_def pick_label_null priority_label_null)
next
  case False
  then have "pick_label a b data = Inr (priority_label a b data)"
    by (simp add: pick_label_priority)
  then show ?thesis
    using assms False
    by (simp add: reverseGeocode_settle_def first_then_def second_then_def final_catch_def
        call_if_function_def)
qed

lemma settle_failed:
  assumes "attempt_fails out"
  shows "reverseGeocode_settle a b (Some cb) out s =
     (Fulfilled (),
      cb (JStr (coords_label a b)) (s\<lparr>trace := trace s @ [ConsoleWarn (failure out)]\<rparr>))"
proof (cases out)
  case Unreachable
  then show ?thesis
    by (simp add: reverseGeocode_settle_def first_then_def second_then_def final_catch_def
        call_if_function_def failure_def)
next
  case (Response status bd)
  show ?thesis
  proof (cases "ok status")
    case False
    then show ?thesis
      using Response
      by (simp add: reverseGeocode_settle_def first_then_def second_then_def final_catch_def
          call_if_function_def failure_def)
  next
    case True
    show ?thesis
    proof (cases bd)
      case Unparseable
      then show ?thesis
        using Response True
        by (simp add: reverseGeocode_settle_def first_then_def second_then_def final_catch_def
            call_if_function_def failure_def)
    next
      case (Parsed data)
      with assms Response True have "data = JNull \<or> data = JUndefined"
        by (cases data) simp_all
      then show ?thesis
        using Response Parsed True settle_parsed [OF True, of a b cb data s]
        by (auto simp: priority_label_null failure_def)
    qed
  qed
qed

lemma settle_shape:
  "\<exists>label w. reverseGeocode_settle a b (Some cb) out s =
       (Fulfilled (), cb label (s\<lparr>trace := trace s @ w\<rparr>)) \<and>
     (w = [] \<or> (\<exists>e. w = [ConsoleWarn e]))"
proof (cases "attempt_fails out")
  case True
  from settle_failed [OF True, of a b cb s] show ?thesis by blast
next
  case False
  then obtain status data where out: "out = Response status (Parsed data)" and nf: "ok status"
    and d: "data \<noteq> JNull" "data \<noteq> JUndefined"
    by (cases out rule: attempt_fails.cases) auto
  from settle_parsed [OF nf, of a b cb data s] d out
  have "reverseGeocode_settle a b (Some cb) out s =
       (Fulfilled (), cb (priority_label a b data) (s\<lparr>trace := trace s @ []\<rparr>))"
    by simp
  then show ?thesis by blast
qed

lemma step_settled_shape:
  assumes "pending s i = Some p"
  shows "\<exists>label w. step (Settled i out) s =
       write_label label (s\<lparr>pending := (pending s)(i := None), trace := trace s @ w\<rparr>) \<and>
     (w = [] \<or> (\<exists>e. w = [ConsoleWarn e]))"
proof -
  from settle_shape [of "lat p" "lng p" write_label out "s\<lparr>pending := (pending s)(i := None)\<rparr>"]
  obtain label w where
    "reverseGeocode_settle (lat p) (lng p) (Some write_label) out (s\<lparr>pending := (pending s)(i := None)\<rparr>) =
       (Fulfilled (), write_label label (s\<lparr>pending := (pending s)(i := None), trace := trace s @ w\<rparr>))"
    "w = [] \<or> (\<exists>e. w = [ConsoleWarn e])"
    by auto
  with assms show ?thesis by auto
qed


section \<open>Sequences of events\<close>

lemma run_Nil: "run [] s = s"
  by (simp add: run_def)

lemma run_Cons: "run (e # es) s = run es (step e s)"
  by (simp add: run_def)

lemma run_append: "run (es @ es') s = run es' (run es s)"
  by (simp add: run_def)

lemma step_present: "(form (step e s) g = None) = (form s g = None)"
proof (cases e)
  case (ModeControl m)
  then show ?thesis by simp
next
  case (MapClick p)
  then show ?thesis by (simp add: on_map_click_present)
next
  case (Settled i out)
  show ?thesis
  proof (cases "pending s i")
    case None
    with Settled show ?thesis by simp
  next
    case (Some p)
    from step_settled_shape [OF Some, of out] Settled show ?thesis
      by (auto simp: write_label_present)
  qed
qed

lemma run_present: "(form (run es s) g = None) = (form s g = None)"
  by (induction es arbitrary: s) (simp_all add: run_Nil run_Cons step_present)

lemma step_mode:
  "currentMode (step e s) = (case e of ModeControl m \<Rightarrow> m | _ \<Rightarrow> currentMode s)"
proof (cases e)
  case (ModeControl m)
  then show ?thesis by simp
next
  case (MapClick p)
  then show ?thesis by (simp add: on_map_click_frame)
next
  case (Settled i out)
  show ?thesis
  proof (cases "pending s i")
    case None
    with Settled show ?thesis by simp
  next
    case (Some p)
    from step_settled_shape [OF Some, of out] Settled show ?thesis
      by (auto simp: write_label_frame)
  qed
qed

lemma step_settled_trace:
  assumes "pending s i = Some p"
  shows "\<exists>label w. trace (step (Settled i out) s) =
      trace s @ w @ existing_writes (form s) (label_targets (currentMode s) label) \<and>
      (w = [] \<or> (\<exists>e. w = [ConsoleWarn e]))"
proof -
  from step_settled_shape [OF assms, of out] obtain label w where
    "step (Settled i out) s =
       write_label label (s\<lparr>pending := (pending s)(i := None), trace := trace s @ w\<rparr>)"
    "w = [] \<or> (\<exists>e. w = [ConsoleWarn e])"
    by blast
  then have "trace (step (Settled i out) s) =
      trace s @ w @ existing_writes (form s) (label_targets (currentMode s) label) \<and>
      (w = [] \<or> (\<exists>e. w = [ConsoleWarn e]))"
    by (simp add: write_label_trace)
  then show ?thesis by blast
qed

lemma step_trace_grows: "\<exists>mid. trace (step e s) = trace s @ mid"
proof (cases e)
  case (ModeControl m)
  then show ?thesis by simp
next
  case (MapClick p)
  then show ?thesis by (simp add: on_map_click_trace)
next
  case (Settled i out)
  show ?thesis
  proof (cases "pending s i")
    case None
    with Settled show ?thesis by simp
  next
    case (Some p)
    from step_settled_trace [OF Some, of out] Settled show ?thesis
      by auto
  qed
qed

lemma run_trace_grows: "\<exists>mid. trace (run es s) = trace s @ mid"
proof (induction es arbitrary: s)
  case Nil
  show ?case by (simp add: run_Nil)
next
  case (Cons e es)
  from step_trace_grows [of e s] obtain m1 where "trace (step e s) = trace s @ m1" by blast
  moreover from Cons [of "step e s"] obtain m2 where
    "trace (run es (step e s)) = trace (step e s) @ m2" by blast
  ultimately have "trace (run (e # es) s) = trace s @ (m1 @ m2)"
    by (simp add: run_Cons)
  then show ?case by blast
qed

lemma step_keeps_pending:
  assumes "n < nextId s" "pending s n = Some p" "\<not> settles n e"
  shows "n < nextId (step e s) \<and> pending (step e s) n = Some p"
proof (cases e)
  case (ModeControl m)
  with assms show ?thesis by simp
next
  case (MapClick q)
  with assms show ?thesis by (simp add: on_map_click_frame)
next
  case (Settled i out)
  with assms have ne: "i \<noteq> n" by auto
  show ?thesis
  proof (cases "pending s i")
    case None
    with Settled assms show ?thesis by simp
  next
    case (Some q)
    from step_settled_shape [OF Some, of out] Settled assms ne show ?thesis
      by (auto simp: write_label_frame)
  qed
qed

lemma run_keeps_pending:
  assumes "n < nextId s" "pending s n = Some p" "\<forall>e\<in>set es. \<not> settles n e"
  shows "pending (run es s) n = Some p"
  using assms
proof (induction es arbitrary: s)
  case Nil
  then show ?case by (simp add: run_Nil)
next
  case (Cons e es)
  from Cons.prems have "\<not> settles n e" by simp
  from step_keeps_pending [OF Cons.prems(1,2) this]
  have "n < nextId (step e s)" "pending (step e s) n = Some p" by simp_all
  with Cons.IH [of "step e s"] Cons.prems(3) show ?case
    by (simp add: run_Cons)
qed

section \<open>The markers over a sequence of events\<close>

lemma marker_effects_append:
  "marker_effects m (xs @ ys) = marker_effects m xs @ marker_effects m ys"
  by (simp add: marker_effects_def)

lemma marker_effects_writes: "marker_effects m (existing_writes frm tv) = []"
  by (induction tv) (auto simp: marker_effects_def)

lemma marker_effects_warning: "w = [] \<or> (\<exists>e. w = [ConsoleWarn e]) \<Longrightarrow> marker_effects m w = []"
  by (auto simp: marker_effects_def)

lemma step_marker_effects:
  "marker_effects m (trace (step e s)) =
     marker_effects m (trace s) @
     (case e of
        MapClick p \<Rightarrow>
          if currentMode s = m then (if added m s then [] else [AddTo m]) @ [SetLatLng m p] else []
      | _ \<Rightarrow> [])"
proof (cases e)
  case (ModeControl m')
  then show ?thesis by simp
next
  case (MapClick p)
  then show ?thesis
    by (simp add: on_map_click_trace marker_effects_def
        marker_effects_writes [unfolded marker_effects_def])
next
  case (Settled i out)
  show ?thesis
  proof (cases "pending s i")
    case None
    with Settled show ?thesis by simp
  next
    case (Some p)
    from step_settled_trace [OF Some, of out] obtain label w where
      t: "trace (step (Settled i out) s) =
            trace s @ w @ existing_writes (form s) (label_targets (currentMode s) label)"
      and w: "w = [] \<or> (\<exists>e. w = [ConsoleWarn e])"
      by blast
    have "marker_effects m (trace (step (Settled i out) s)) = marker_effects m (trace s)"
      unfolding t
      by (simp add: marker_effects_append marker_effects_writes marker_effects_warning [OF w])
    with Settled show ?thesis by (simp del: step.simps)
  qed
qed

lemma step_markers:
  "marker_of m (step e s) =
     (case e of
        MapClick p \<Rightarrow>
          if m = currentMode s
          then \<lparr>position = p, onMap = (if added m s then onMap (marker_of m s) else True)\<rparr>
          else marker_of m s
      | _ \<Rightarrow> marker_of m s)"
  "added m (step e s) =
     (case e of MapClick p \<Rightarrow> (if m = currentMode s then True else added m s) | _ \<Rightarrow> added m s)"
proof -
  have settled: "marker_of m (step (Settled i out) s) = marker_of m s \<and>
                 added m (step (Settled i out) s) = added m s" for i out
  proof (cases "pending s i")
    case None
    then show ?thesis by simp
  next
    case (Some p)
    from step_settled_shape [OF Some, of out] obtain label w where
      st: "step (Settled i out) s =
        write_label label (s\<lparr>pending := (pending s)(i := None), trace := trace s @ w\<rparr>)"
      by blast
    have "marker_of m (step (Settled i out) s) = marker_of m s"
      unfolding st by (rule marker_of_frame) (simp_all add: write_label_frame)
    moreover have "added m (step (Settled i out) s) = added m s"
      unfolding st by (rule added_frame) (simp_all add: write_label_frame)
    ultimately show ?thesis by simp
  qed
  have mc: "marker_of m (step (ModeControl m') s) = marker_of m s \<and>
            added m (step (ModeControl m') s) = added m s" for m'
    by (cases m) simp_all
  show "marker_of m (step e s) =
     (case e of
        MapClick p \<Rightarrow>
          if m = currentMode s
          then \<lparr>position = p, onMap = (if added m s then onMap (marker_of m s) else True)\<rparr>
          else marker_of m s
      | _ \<Rightarrow> marker_of m s)"
    using settled mc by (cases e) (simp_all add: on_map_click_markers del: marker_of.simps added.simps)
  show "added m (step e s) =
     (case e of MapClick p \<Rightarrow> (if m = currentMode s then True else added m s) | _ \<Rightarrow> added m s)"
    using settled mc by (cases e) (simp_all add: on_map_click_markers del: marker_of.simps added.simps)
qed

lemma run_marker_effects:
  "marker_effects m (trace (run es s)) =
     marker_effects m (trace s) @
     (case clicks_in m (currentMode s) es of
        [] \<Rightarrow> []
      | p # ps \<Rightarrow> (if added m s then [] else [AddTo m]) @ map (SetLatLng m) (p # ps))"
proof (induction es arbitrary: s)
  case Nil
  show ?case by (simp add: run_Nil)
next
  case (Cons e es)
  show ?case
  proof (cases e)
    case (ModeControl m')
    then show ?thesis
      using Cons [of "step e s"] step_marker_effects [of m e s] step_markers(2) [of m e s]
      by (simp add: run_Cons step_mode del: step.simps)
  next
    case (Settled i out)
    then show ?thesis
      using Cons [of "step e s"] step_marker_effects [of m e s] step_markers(2) [of m e s]
      by (simp add: run_Cons step_mode del: step.simps)
  next
    case (MapClick p)
    then show ?thesis
      using Cons [of "step e s"] step_marker_effects [of m e s] step_markers(2) [of m e s]
      by (auto simp: run_Cons step_mode simp del: step.simps split: list.splits)
  qed
qed

lemma run_added:
  "added m (run es s) = (added m s \<or> clicks_in m (currentMode s) es \<noteq> [])"
proof (induction es arbitrary: s)
  case Nil
  show ?case by (simp add: run_Nil)
next
  case (Cons e es)
  show ?case
    using Cons [of "step e s"] step_markers(2) [of m e s]
    by (cases e) (auto simp: run_Cons step_mode simp del: step.simps)
qed

lemma run_onMap:
  "onMap (marker_of m s) = added m s \<Longrightarrow> onMap (marker_of m (run es s)) = added m (run es s)"
proof (induction es arbitrary: s)
  case Nil
  then show ?case by (simp add: run_Nil)
next
  case (Cons e es)
  have "onMap (marker_of m (step e s)) = added m (step e s)"
    using Cons.prems step_markers [of m e s]
    by (cases e) (auto simp del: step.simps)
  from Cons.IH [OF this] show ?case by (simp add: run_Cons)
qed

lemma run_position:
  "position (marker_of m (run es s)) =
     last (position (marker_of m s) # clicks_in m (currentMode s) es)"
proof (induction es arbitrary: s)
  case Nil
  show ?case by (simp add: run_Nil)
next
  case (Cons e es)
  show ?case
    using Cons [of "step e s"] step_markers(1) [of m e s]
    by (cases e) (auto simp: run_Cons step_mode simp del: step.simps)
qed

section \<open>The claims about the map in use\<close>

text \<open>The printed coordinates of a click at (42.8, 23.8).\<close>

lemma floor_428: "\<lfloor>(8560001::rat) / 2\<rfloor> = 4280000"
  by (simp add: floor_eq_iff)

lemma floor_238: "\<lfloor>(4760001::rat) / 2\<rfloor> = 2380000"
  by (simp add: floor_eq_iff)

lemma digits_428: "digits 4280000 = ''4280000''"
  by (simp add: digits.simps digit_def)

lemma digits_238: "digits 2380000 = ''2380000''"
  by (simp add: digits.simps digit_def)

lemma toFixed_428: "toFixed 5 42.8 = ''42.80000''"
  by (simp add: toFixed_def Let_def floor_428 digits_428)

lemma toFixed_238: "toFixed 5 23.8 = ''23.80000''"
  by (simp add: toFixed_def Let_def floor_238 digits_238)

lemma coords_label_example: "coords_label 42.8 23.8 = ''42.80000, 23.80000''"
  by (simp only: coords_label_def toFixed_428 toFixed_238) simp

lemma coords_label_example_reduced: "coords_label (214 / 5) (119 / 5) = ''42.80000, 23.80000''"
  using coords_label_example by simp

text \<open>
  Claim C4, amended. For every successful response (a success status and a body that is
  JSON), the continuation receives the first truthy value among \<open>address.village\<close>,
  \<open>address.town\<close>, \<open>address.city\<close> and the top-level \<open>display_name\<close>, and the
  clicked coordinates printed with five decimals as \<open>"{lat}, {lng}"\<close> when none of
  them is truthy. A value that is there but falsy, such as an empty text, is passed
  over. For the body \<open>null\<close> the label comes from the \<open>catch\<close> handler, after a warning.
\<close>
theorem label_by_priority_among_truthy_values:
  assumes "ok status"
  shows "reverseGeocode_settle a b (Some cb) (Response status (Parsed data)) s =
     (Fulfilled (),
      cb (priority_label a b data)
        (s\<lparr>trace := trace s @
           (if data = JNull \<or> data = JUndefined then [ConsoleWarn TypeError] else [])\<rparr>))"
  using assms by (rule settle_parsed)

text \<open>
  Status 200 with a village, with a display name only, and with neither, for a click at
  (42.8, 23.8).
\<close>
theorem label_by_priority_among_truthy_values_witness:
  "ok 200 \<and>
   reverseGeocode_settle 42.8 23.8 (Some write_label)
     (Response 200 (Parsed (JObj [(''address'', JObj [(''village'', JStr ''Osoitsa'')])])))
     (initial_page whole_form) =
     (Fulfilled (), write_label (JStr ''Osoitsa'') (initial_page whole_form)) \<and>
   reverseGeocode_settle 42.8 23.8 (Some write_label)
     (Response 200 (Parsed (JObj [(''display_name'', JStr ''X, Y'')])))
     (initial_page whole_form) =
     (Fulfilled (), write_label (JStr ''X, Y'') (initial_page whole_form)) \<and>
   reverseGeocode_settle 42.8 23.8 (Some write_label)
     (Response 200 (Parsed (JObj [])))
     (initial_page whole_form) =
     (Fulfilled (), write_label (JStr ''42.80000, 23.80000'') (initial_page whole_form))"
proof -
  have h: "ok 200" by (simp add: ok_def)
  show ?thesis
    using h
      label_by_priority_among_truthy_values [OF h, of "42.8" "23.8" write_label
        "JObj [(''address'', JObj [(''village'', JStr ''Osoitsa'')])]" "initial_page whole_form"]
      label_by_priority_among_truthy_values [OF h, of "42.8" "23.8" write_label
        "JObj [(''display_name'', JStr ''X, Y'')]" "initial_page whole_form"]
      label_by_priority_among_truthy_values [OF h, of "42.8" "23.8" write_label
        "JObj []" "initial_page whole_form"]
    by (simp add: priority_label_def toFixed_428 [simplified] toFixed_238 [simplified])
qed

text \<open>
  Claim C4 as stated fails: in this response \<open>address.village\<close> is present (it is the
  empty text), yet the label is the town and that is what reaches the form.
\<close>
theorem empty_village_is_passed_over:
  "getprop (JObj [(''village'', JStr []), (''town'', JStr ''Elin Pelin'')]) ''village'' = Inr (JStr []) \<and>
   pick_label 42.8 23.8
     (JObj [(''address'', JObj [(''village'', JStr []), (''town'', JStr ''Elin Pelin'')])]) =
     Inr (JStr ''Elin Pelin'') \<and>
   form (run [MapClick (LatLng 42.8 23.8),
              Settled 0 (Response 200 (Parsed
                (JObj [(''address'', JObj [(''village'', JStr []), (''town'', JStr ''Elin Pelin'')])])))]
          (initial_page whole_form)) OfferFromField = Some (JStr ''Elin Pelin'')"
  by (simp add: pick_label_def run_def on_map_click_def place_marker_def setLatLngInputs_def
      setFieldValue_def reverseGeocode_issue_def reverseGeocode_settle_def first_then_def
      second_then_def final_catch_def call_if_function_def write_label_def initial_page_def
      whole_form_def ok_def Let_def)


lemma is_fetch_writes: "filter is_fetch (existing_writes frm tv) = []"
  by (induction tv) auto

text \<open>
  Claim C5. When an attempt fails (the service is unreachable, the status is not a
  success, the body is not JSON or is \<open>null\<close>), the promise chain still ends fulfilled,
  and the continuation is applied exactly once, to the latitude and the longitude
  printed with five decimals as \<open>"{lat}, {lng}"\<close>, after one warning on the console. For a request in flight this is the whole effect of its
  settling: the request leaves \<open>pending\<close>, no request is issued again, and the label
  writer runs once with the fallback label.
\<close>
theorem failed_lookup_yields_fallback_once:
  assumes "attempt_fails out" and "pending s i = Some p"
  shows "reverseGeocode_settle a b (Some cb) out s0 =
           (Fulfilled (),
            cb (JStr (toFixed 5 a @ '', '' @ toFixed 5 b))
              (s0\<lparr>trace := trace s0 @ [ConsoleWarn (failure out)]\<rparr>)) \<and>
         step (Settled i out) s =
           write_label (JStr (toFixed 5 (lat p) @ '', '' @ toFixed 5 (lng p)))
             (s\<lparr>pending := (pending s)(i := None), trace := trace s @ [ConsoleWarn (failure out)]\<rparr>) \<and>
         pending (step (Settled i out) s) = (pending s)(i := None) \<and>
         nextId (step (Settled i out) s) = nextId s \<and>
         filter is_fetch (trace (step (Settled i out) s)) = filter is_fetch (trace s)"
proof -
  have st: "step (Settled i out) s =
           write_label (JStr (toFixed 5 (lat p) @ '', '' @ toFixed 5 (lng p)))
             (s\<lparr>pending := (pending s)(i := None), trace := trace s @ [ConsoleWarn (failure out)]\<rparr>)"
    using assms(2)
    by (simp add: settle_failed [OF assms(1)] coords_label_def)
  show ?thesis
    unfolding st
    by (simp add: settle_failed [OF assms(1)] coords_label_def write_label_frame write_label_trace
        is_fetch_writes)
qed

text \<open>A click at (42.8, 23.8) whose request is answered with status 503.\<close>
theorem failed_lookup_yields_fallback_once_witness:
  "attempt_fails (Response 503 Unparseable) \<and>
   pending (run [MapClick (LatLng 42.8 23.8)] (initial_page whole_form)) 0 = Some (LatLng 42.8 23.8) \<and>
   fst (reverseGeocode_settle 42.8 23.8 (Some write_label) (Response 503 Unparseable)
          (initial_page whole_form)) = Fulfilled () \<and>
   step (Settled 0 (Response 503 Unparseable)) (run [MapClick (LatLng 42.8 23.8)] (initial_page whole_form)) =
     write_label (JStr ''42.80000, 23.80000'')
       ((run [MapClick (LatLng 42.8 23.8)] (initial_page whole_form))
          \<lparr>pending := Map.empty,
           trace := trace (run [MapClick (LatLng 42.8 23.8)] (initial_page whole_form)) @
                    [ConsoleWarn (HttpError 503)]\<rparr>)"
proof -
  let ?s1 = "run [MapClick (LatLng 42.8 23.8)] (initial_page whole_form)"
  let ?out = "Response 503 Unparseable"
  have h1: "attempt_fails ?out" by simp
  have p: "pending ?s1 = [0 \<mapsto> LatLng 42.8 23.8]"
    by (simp add: run_Cons run_Nil on_map_click_frame initial_page_def)
  then have h2: "pending ?s1 0 = Some (LatLng 42.8 23.8)"
    by simp
  have f: "failure ?out = HttpError 503"
    by (simp add: failure_def ok_def)
  note t = failed_lookup_yields_fallback_once [OF h1 h2, of "42.8" "23.8" write_label
        "initial_page whole_form"]
  from t have a: "fst (reverseGeocode_settle 42.8 23.8 (Some write_label) ?out
          (initial_page whole_form)) = Fulfilled ()"
    by simp
  from t have "step (Settled 0 ?out) ?s1 =
      write_label
        (JStr (toFixed 5 (lat (LatLng 42.8 23.8)) @ '', '' @ toFixed 5 (lng (LatLng 42.8 23.8))))
        (?s1\<lparr>pending := (pending ?s1)(0 := None),
              trace := trace ?s1 @ [ConsoleWarn (failure ?out)]\<rparr>)"
    by blast
  then have b: "step (Settled 0 ?out) ?s1 =
     write_label (JStr ''42.80000, 23.80000'')
       (?s1\<lparr>pending := Map.empty, trace := trace ?s1 @ [ConsoleWarn (HttpError 503)]\<rparr>)"
    by (simp add: p [simplified] f toFixed_428 [simplified] toFixed_238 [simplified]
        del: step.simps)
  from h1 h2 a b show ?thesis by blast
qed

text \<open>
  Claim C6. The click handler writes the coordinates before it issues the request, and
  the label of that click is written only when its request settles. So, whatever events
  \<open>es\<close> lie between the click and the settling of its request, the trace is: what was
  there before, effects that write nothing, the coordinate writes, the request, the
  effects in between, and the label writes at the end.
\<close>
theorem coordinates_written_before_label:
  assumes "\<forall>e\<in>set es. \<not> settles (nextId s) e"
  shows "\<exists>pre mid label.
     filter is_write pre = [] \<and>
     trace (step (MapClick p) s) =
       trace s @ pre @ existing_writes (form s) (coord_targets (currentMode s) p) @
       [Fetch (lat p) (lng p)] \<and>
     trace (run (MapClick p # es @ [Settled (nextId s) out]) s) =
       trace (step (MapClick p) s) @ mid @
       existing_writes (form s) (label_targets (currentMode (run (MapClick p # es) s)) label)"
proof -
  let ?n = "nextId s"
  let ?s1 = "step (MapClick p) s"
  let ?s2 = "run es ?s1"
  let ?pre = "[ConsoleLog (currentMode s) p] @
      (if added (currentMode s) s then [] else [AddTo (currentMode s)]) @
      [SetLatLng (currentMode s) p]"
  have pre: "filter is_write ?pre = []"
    by simp
  have t1: "trace ?s1 =
       trace s @ ?pre @ existing_writes (form s) (coord_targets (currentMode s) p) @
       [Fetch (lat p) (lng p)]"
    by (simp add: on_map_click_trace)
  have "?n < nextId ?s1" "pending ?s1 ?n = Some p"
    by (simp_all add: on_map_click_frame)
  from run_keeps_pending [OF this assms] have pend: "pending ?s2 ?n = Some p" .
  from run_trace_grows [of es ?s1] obtain m1 where t2: "trace ?s2 = trace ?s1 @ m1"
    by blast
  from step_settled_trace [OF pend, of out] obtain label w where
    t3: "trace (step (Settled ?n out) ?s2) =
      trace ?s2 @ w @ existing_writes (form ?s2) (label_targets (currentMode ?s2) label)"
    by blast
  have same: "existing_writes (form ?s2) tv = existing_writes (form s) tv" for tv
    by (rule existing_writes_present) (simp add: run_present on_map_click_present)
  have r: "run (MapClick p # es @ [Settled ?n out]) s = step (Settled ?n out) ?s2"
    by (simp add: run_Cons run_append run_Nil del: step.simps)
  have r2: "run (MapClick p # es) s = ?s2"
    by (simp add: run_Cons del: step.simps)
  have "trace (run (MapClick p # es @ [Settled ?n out]) s) =
       trace ?s1 @ (m1 @ w) @
       existing_writes (form s) (label_targets (currentMode (run (MapClick p # es) s)) label)"
    unfolding r r2 t3 t2 same by simp
  with pre t1 show ?thesis by blast
qed

text \<open>
  A click in mode \<open>from\<close>, then the \<open>to\<close> control and a second click, then the first
  request fails.
\<close>
theorem coordinates_written_before_label_witness:
  "\<not> settles (nextId (initial_page whole_form)) (ModeControl To) \<and>
   \<not> settles (nextId (initial_page whole_form)) (MapClick (LatLng 1 2)) \<and>
   trace (run [MapClick (LatLng 3 4), ModeControl To, MapClick (LatLng 1 2), Settled 0 Unreachable]
            (initial_page whole_form)) =
     [ConsoleLog From (LatLng 3 4), AddTo From, SetLatLng From (LatLng 3 4),
      SetValue OfferFromLat (JNum 3), SetValue OfferFromLng (JNum 4),
      SetValue RequestFromLat (JNum 3), SetValue RequestFromLng (JNum 4),
      Fetch 3 4,
      ConsoleLog To (LatLng 1 2), AddTo To, SetLatLng To (LatLng 1 2),
      SetValue OfferToLat (JNum 1), SetValue OfferToLng (JNum 2),
      SetValue RequestToLat (JNum 1), SetValue RequestToLng (JNum 2),
      Fetch 1 2,
      ConsoleWarn NetworkError,
      SetValue OfferToField (JStr (coords_label 3 4)),
      SetValue RequestToField (JStr (coords_label 3 4))]"
proof -
  have h: "\<forall>e\<in>set [ModeControl To, MapClick (LatLng 1 2)].
             \<not> settles (nextId (initial_page whole_form)) e"
    by simp
  have "nextId (initial_page whole_form) = 0"
    by (simp add: initial_page_def)
  then show ?thesis
    using h coordinates_written_before_label [OF h, of "LatLng 3 4" Unreachable]
    by (simp add: run_def on_map_click_def place_marker_def setLatLngInputs_def
      setFieldValue_def reverseGeocode_issue_def reverseGeocode_settle_def first_then_def
      second_then_def final_catch_def call_if_function_def write_label_def initial_page_def
      whole_form_def Let_def)
qed


text \<open>
  Claim C7 does not hold of the script. The continuation reads \<open>currentMode\<close> when the
  response arrives, not when the map was clicked. After a click at (3, 4) in mode
  \<open>from\<close>, a press on the \<open>to\<close> control and then the response, the coordinates are
  in the \<open>from\<close> inputs, the label is in the two \<open>to\<close> place-name inputs, and the
  \<open>from\<close> place-name inputs are as empty as before.
\<close>
theorem label_follows_mode_at_arrival:
  "form (run [MapClick (LatLng 3 4), ModeControl To,
              Settled 0 (Response 200 (Parsed (JObj [(''address'', JObj [(''village'', JStr ''Osoitsa'')])])))]
          (initial_page whole_form)) =
     whole_form
       (OfferFromLat \<mapsto> JNum 3, OfferFromLng \<mapsto> JNum 4,
        RequestFromLat \<mapsto> JNum 3, RequestFromLng \<mapsto> JNum 4,
        OfferToField \<mapsto> JStr ''Osoitsa'', RequestToField \<mapsto> JStr ''Osoitsa'') \<and>
   whole_form OfferFromField = Some (JStr [])"
  by (simp add: run_def on_map_click_def place_marker_def setLatLngInputs_def
      setFieldValue_def reverseGeocode_issue_def reverseGeocode_settle_def first_then_def
      second_then_def final_catch_def call_if_function_def write_label_def initial_page_def
      whole_form_def pick_label_def ok_def Let_def)

text \<open>
  Claim C8. A click leaves the marker of the other mode, and its flag, as they were, and
  puts the marker of the active mode on the clicked point. Over any sequence of events
  the marker of a mode is at the last point clicked while that mode was active (or where
  it was, when there was no such click), whatever was clicked in the other mode.
\<close>
theorem click_moves_only_the_marker_of_its_mode:
  "marker_of (other_mode (currentMode s)) (step (MapClick p) s) =
     marker_of (other_mode (currentMode s)) s \<and>
   added (other_mode (currentMode s)) (step (MapClick p) s) =
     added (other_mode (currentMode s)) s \<and>
   position (marker_of (currentMode s) (step (MapClick p) s)) = p \<and>
   position (marker_of m (run es s)) =
     last (position (marker_of m s) # clicks_in m (currentMode s) es)"
proof -
  have "other_mode (currentMode s) \<noteq> currentMode s"
    by (cases "currentMode s") simp_all
  then show ?thesis
    using run_position [of m es s]
    by (simp add: on_map_click_markers del: marker_of.simps added.simps)
qed

text \<open>
  Claim C9. From the start of the page and over any sequence of events, what happens to
  the marker of a mode is: nothing, when no click fell into that mode; otherwise one
  \<open>addTo\<close>, at the first click in that mode, followed by one \<open>setLatLng\<close> for
  each click in that mode, in order. The marker is on the map exactly from its first
  click on.
\<close>
theorem marker_attached_once_then_moved:
  "marker_effects m (trace (run es (initial_page elements))) =
     (case clicks_in m From es of
        [] \<Rightarrow> []
      | p # ps \<Rightarrow> AddTo m # map (SetLatLng m) (p # ps)) \<and>
   onMap (marker_of m (run es (initial_page elements))) = (clicks_in m From es \<noteq> []) \<and>
   added m (run es (initial_page elements)) = (clicks_in m From es \<noteq> [])"
proof -
  let ?s = "initial_page elements"
  have i: "currentMode ?s = From" "added m ?s = False" "onMap (marker_of m ?s) = added m ?s"
    "marker_effects m (trace ?s) = []"
    by (cases m; simp add: initial_page_def marker_effects_def)+
  from run_marker_effects [of m es ?s] run_added [of m es ?s] run_onMap [OF i(3), of es]
  show ?thesis
    by (simp add: i split: list.splits)
qed

end
